theory Spec2Isabelle
  imports Main "HOL-Library.Sublist" "HOL-Library.Multiset"
begin

text \<open>
  A model of the tool server of the browser tab organiser (\<open>mcp-server/index.js\<close>): the
  request handler with its fifteen tools, the two category catalogs, and \<open>writeCommand\<close>.
  What the handler reads and writes outside its arguments (the snapshot file, the command
  file, the clock, the random numbers of the shuffle) is a record that is passed in and
  returned.  The snapshot is a typed record, so a file that exists is a well-formed
  snapshot; numbers are integers; strings are lists of characters.
\<close>

section \<open>Strings\<close>

text \<open>
  JavaScript strings are modelled as \<^typ>\<open>string\<close> (lists of 8-bit characters; every
  pattern and every fixed text of the server is ASCII).  \<open>s.startsWith(p)\<close> and
  \<open>s.includes(p)\<close> are written out as recursive functions and related to the library's
  \<^const>\<open>prefix\<close> and \<^const>\<open>sublist\<close> below.  \<open>toLowerCase\<close> maps the letters
  \<open>A\<close>..\<open>Z\<close> to \<open>a\<close>..\<open>z\<close> and leaves every other character alone (the
  locale-independent behaviour of \<open>String.prototype.toLowerCase\<close> on ASCII text).
\<close>

fun startsWith :: "string \<Rightarrow> string \<Rightarrow> bool" where
  "startsWith s [] = True"
| "startsWith [] (c # p) = False"
| "startsWith (a # s) (c # p) = (a = c \<and> startsWith s p)"

fun str_includes :: "string \<Rightarrow> string \<Rightarrow> bool" where
  "str_includes [] p = (p = [])"
| "str_includes (a # s) p = (startsWith (a # s) p \<or> str_includes s p)"

definition lower_char :: "char \<Rightarrow> char" where
  "lower_char c =
     (case map_of (zip ''ABCDEFGHIJKLMNOPQRSTUVWXYZ'' ''abcdefghijklmnopqrstuvwxyz'') c of
        Some l \<Rightarrow> l
      | None \<Rightarrow> c)"

definition toLowerCase :: "string \<Rightarrow> string" where
  "toLowerCase s = map lower_char s"

section \<open>Snapshot data model\<close>

text \<open>
  One record of the \<open>tabs\<close> array of \<open>tabs-data.json\<close>, as \<open>getAllTabs\<close> of the
  extension writes it.  The field \<open>id\<close> is called \<open>tab_id\<close> here.  \<open>groupId\<close> is the
  browser's group identifier, \<open>-1\<close> for a tab outside every group.  \<open>lastAccessed\<close> may
  be absent.  \<open>mutedInfo\<close> is never read by the server and is left out.
\<close>

record tab =
  tab_id :: int
  windowId :: int
  tabIndex :: int
  title :: string
  url :: string
  domain :: string
  pinned :: bool
  active :: bool
  groupId :: int
  lastAccessed :: "int option"
  audible :: bool
  favIconUrl :: string

section \<open>The two category catalogs and their classifiers\<close>

subsection \<open>Analysis catalog (\<open>find_tabs_by_category\<close>)\<close>

text \<open>
  The object literal \<open>categories\<close>; \<open>Object.entries\<close> visits its (non-numeric) keys in
  the order in which they are written, so it is a list of pairs.
\<close>

definition categories :: "(string \<times> string list) list" where
  "categories =
    [(''Development'', [''github.com'', ''gitlab.com'', ''stackoverflow.com'', ''localhost'',
                        ''npmjs.com'', ''docs.'', ''developer.'']),
     (''Social'', [''twitter.com'', ''x.com'', ''facebook.com'', ''linkedin.com'',
                   ''instagram.com'', ''reddit.com'', ''discord.com'']),
     (''Communication'', [''mail.google.com'', ''outlook.'', ''slack.com'',
                          ''teams.microsoft.com'', ''zoom.us'']),
     (''Productivity'', [''notion.so'', ''docs.google.com'', ''sheets.google.com'',
                         ''drive.google.com'', ''trello.com'', ''asana.com'', ''jira.'']),
     (''Shopping'', [''amazon.'', ''ebay.'', ''etsy.com'', ''shop.'', ''store.'']),
     (''Entertainment'', [''youtube.com'', ''netflix.com'', ''spotify.com'', ''twitch.tv'',
                          ''hulu.com'']),
     (''News'', [''news.'', ''cnn.com'', ''bbc.'', ''nytimes.com'', ''theguardian.com'',
                 ''hackernews'', ''ycombinator.com'']),
     (''AI Tools'', [''claude.ai'', ''chat.openai.com'', ''chatgpt.com'', ''anthropic.com'',
                     ''huggingface.co''])]"

text \<open>\<open>patterns.some(p => tab.domain.includes(p) || tab.url.includes(p))\<close>\<close>

definition category_matches :: "tab \<Rightarrow> string list \<Rightarrow> bool" where
  "category_matches t ps = list_ex (\<lambda>p. str_includes (domain t) p \<or> str_includes (url t) p) ps"

text \<open>The \<open>for (const [category, patterns] of ...)\<close> loop with its \<open>break\<close>.\<close>

fun find_category :: "tab \<Rightarrow> (string \<times> string list) list \<Rightarrow> string option" where
  "find_category t [] = None"
| "find_category t ((category, ps) # rest) =
     (if category_matches t ps then Some category else find_category t rest)"

subsection \<open>Auto-organize catalog (\<open>auto_organize_tabs\<close>)\<close>

record category =
  name :: string
  color :: string
  patterns :: "string list"

definition categoryDefinitions :: "category list" where
  "categoryDefinitions =
    [\<lparr>name = ''GitHub'', color = ''green'',
      patterns = [''github.com'', ''gitlab.com'', ''bitbucket.org'']\<rparr>,
     \<lparr>name = ''Jira'', color = ''blue'',
      patterns = [''atlassian.net/browse'', ''atlassian.net/jira'', ''atlassian.com'']\<rparr>,
     \<lparr>name = ''Confluence'', color = ''blue'',
      patterns = [''atlassian.net/wiki'']\<rparr>,
     \<lparr>name = ''Docs'', color = ''purple'',
      patterns = [''docs.'', ''/docs/'', ''documentation'', ''readme'', ''knip.dev'', ''nx.dev'',
                  ''npmjs.com'', ''developer.'', ''devdocs.io'', ''mdn.'', ''w3schools'']\<rparr>,
     \<lparr>name = ''Local Dev'', color = ''yellow'',
      patterns = [''localhost'', ''127.0.0.1'', ''0.0.0.0'']\<rparr>,
     \<lparr>name = ''AI Tools'', color = ''pink'',
      patterns = [''claude.ai'', ''chat.openai.com'', ''chatgpt.com'', ''anthropic.com'',
                  ''huggingface.co'', ''code.claude'']\<rparr>,
     \<lparr>name = ''Articles'', color = ''cyan'',
      patterns = [''medium.com'', ''dev.to'', ''reddit.com'', ''hackernews'',
                  ''news.ycombinator'', ''blog'', ''substack.com'', ''hashnode.'',
                  ''freecodecamp'']\<rparr>,
     \<lparr>name = ''Metrics'', color = ''red'',
      patterns = [''datadog'', ''grafana'', ''prometheus'', ''newrelic'', ''dora'', ''analytics'',
                  ''sonarcloud'', ''sonarqube'', ''snyk.io'', ''backstage'']\<rparr>,
     \<lparr>name = ''Meetings'', color = ''orange'',
      patterns = [''zoom.us'', ''meet.google'', ''teams.microsoft'', ''webex'', ''calendar'']\<rparr>,
     \<lparr>name = ''Support'', color = ''grey'',
      patterns = [''service-now'', ''servicenow'', ''zendesk'', ''freshdesk'', ''support.'',
                  ''helpdesk'']\<rparr>,
     \<lparr>name = ''Social'', color = ''pink'',
      patterns = [''twitter.com'', ''x.com'', ''facebook.com'', ''linkedin.com'',
                  ''instagram.com'', ''discord.com'', ''slack.com'']\<rparr>,
     \<lparr>name = ''Shopping'', color = ''orange'',
      patterns = [''amazon.'', ''ebay.'', ''etsy.com'', ''apple.com/shop'', ''store.'',
                  ''checkout'', ''cart'']\<rparr>,
     \<lparr>name = ''Entertainment'', color = ''red'',
      patterns = [''youtube.com'', ''netflix.com'', ''spotify.com'', ''twitch.tv'', ''hulu.com'',
                  ''disneyplus.com'']\<rparr>,
     \<lparr>name = ''Search'', color = ''grey'',
      patterns = [''google.com/search'', ''bing.com/search'', ''duckduckgo.com'']\<rparr>]"

text \<open>
  \<open>category.patterns.some(pattern => tab.url.toLowerCase().includes(pattern.toLowerCase())
  || tab.domain.toLowerCase().includes(pattern.toLowerCase()))\<close>
\<close>

definition definition_matches :: "tab \<Rightarrow> category \<Rightarrow> bool" where
  "definition_matches t c =
     list_ex (\<lambda>pattern. str_includes (toLowerCase (url t)) (toLowerCase pattern)
                      \<or> str_includes (toLowerCase (domain t)) (toLowerCase pattern)) (patterns c)"

text \<open>The \<open>for (const category of categoryDefinitions)\<close> loop with its \<open>break\<close>.\<close>

fun assign_category :: "tab \<Rightarrow> category list \<Rightarrow> category option" where
  "assign_category t [] = None"
| "assign_category t (c # rest) =
     (if definition_matches t c then Some c else assign_category t rest)"

text \<open>Literal containment of one of a list of patterns in the domain or the URL.\<close>

definition contains_pattern :: "tab \<Rightarrow> string list \<Rightarrow> bool" where
  "contains_pattern t ps = (\<exists>p \<in> set ps. sublist p (domain t) \<or> sublist p (url t))"

section \<open>Rendering helpers\<close>

text \<open>Decimal rendering of the integers that the template literals interpolate.\<close>

fun show_nat :: "nat \<Rightarrow> string" where
  "show_nat n =
     (if n < 10 then [char_of (48 + n)] else show_nat (n div 10) @ [char_of (48 + n mod 10)])"

declare show_nat.simps [simp del]

definition show_int :: "int \<Rightarrow> string" where
  "show_int i = (if i < 0 then CHR ''-'' # show_nat (nat (- i)) else show_nat (nat i))"

abbreviation nl :: string where
  "nl \<equiv> [CHR 0x0A]"

abbreviation dq :: string where
  "dq \<equiv> [CHR 0x22]"

text \<open>\<open>Array.prototype.join\<close>\<close>

fun join :: "string \<Rightarrow> string list \<Rightarrow> string" where
  "join sep [] = []"
| "join sep [x] = x"
| "join sep (x # y # rest) = x @ sep @ join sep (y # rest)"

text \<open>The elements of \<open>new Set(xs)\<close>, in the order of their first occurrence.\<close>

definition uniq :: "'a list \<Rightarrow> 'a list" where
  "uniq xs = foldl (\<lambda>seen x. if x \<in> set seen then seen else seen @ [x]) [] xs"

section \<open>Snapshot, commands and the world outside the handler\<close>

record tab_group =
  group_id :: int
  group_title :: string
  group_color :: string
  collapsed :: bool
  group_windowId :: int

text \<open>
  The contents of \<open>tabs-data.json\<close>.  \<open>timestamp\<close> is the ISO date of the file read as
  milliseconds, the value of \<open>new Date(timestamp).getTime()\<close>.
\<close>

record snapshot =
  timestamp :: int
  windowCount :: int
  tabCount :: int
  groups :: "tab_group list"
  tabs :: "tab list"

record move =
  move_tabId :: int
  move_windowId :: int
  move_index :: nat

text \<open>
  The object handed to \<open>writeCommand\<close>, one constructor for each \<open>action\<close>; the last
  argument is the \<open>description\<close>.
\<close>

datatype command =
    Close_tabs "int list" string
  | Create_group "int list" string string string
  | Focus_tab int int string
  | Ungroup_tabs "int list" string
  | Shuffle_tabs "move list" string

text \<open>An element of the array in \<open>commands.json\<close>: \<open>{ ...command, id, status }\<close>.\<close>

record queued =
  command :: command
  cmd_id :: int
  status :: string

text \<open>
  Everything the request handler reads or writes besides its arguments:
  \<^item> \<open>tabs_file\<close>: the parsed \<open>tabs-data.json\<close>, \<open>None\<close> when the file does not exist;
  \<^item> \<open>commands\<close>: the array in \<open>commands.json\<close> (\<open>writeCommand\<close> reads a missing file as
    the empty array, so a missing file is the empty list);
  \<^item> \<open>clock\<close> and \<open>ticks\<close>: \<open>clock k\<close> is the value of the \<open>k\<close>-th call of \<open>Date.now()\<close>, and
    \<open>ticks\<close> counts the calls made so far;
  \<^item> \<open>random_floor i\<close>: the value of \<open>Math.floor(Math.random() * (i + 1))\<close> drawn by the
    shuffle loop at index \<open>i\<close>.
\<close>

record world =
  tabs_file :: "snapshot option"
  commands :: "queued list"
  clock :: "nat \<Rightarrow> int"
  ticks :: nat
  random_floor :: "nat \<Rightarrow> nat"

definition Date_now :: "world \<Rightarrow> int \<times> world" where
  "Date_now w = (clock w (ticks w), w\<lparr>ticks := Suc (ticks w)\<rparr>)"

definition writeCommand :: "command \<Rightarrow> world \<Rightarrow> world" where
  "writeCommand c w =
     (let (now, w') = Date_now w
      in w'\<lparr>commands := commands w' @ [\<lparr>command = c, cmd_id = now, status = ''pending''\<rparr>]\<rparr>)"

definition loadTabs :: "world \<Rightarrow> snapshot option" where
  "loadTabs w = tabs_file w"

definition formatAge :: "int \<Rightarrow> world \<Rightarrow> string \<times> world" where
  "formatAge ts w =
     (let (now, w') = Date_now w;
          diff = now - ts;
          minutes = diff div 60000
      in (if minutes < 1 then ''just now''
          else if minutes < 60 then show_int minutes @ ''m ago''
          else let hours = minutes div 60
               in if hours < 24 then show_int hours @ ''h ago''
                  else show_int (hours div 24) @ ''d ago'',
          w'))"

text \<open>
  The tool arguments.  A field is \<open>None\<close> when the caller left it out (or passed no
  \<open>arguments\<close> at all).  Numbers are integers.
\<close>

record args =
  domain_arg :: "string option"
  search_arg :: "string option"
  hours_arg :: "int option"
  context_arg :: "string option"
  urlPattern_arg :: "string option"
  tabIds_arg :: "int list option"
  name_arg :: "string option"
  color_arg :: "string option"
  tabId_arg :: "int option"
  closeDuplicates_arg :: "bool option"

text \<open>JavaScript truthiness of an optional string and of an optional number.\<close>

definition truthy_string :: "string option \<Rightarrow> bool" where
  "truthy_string a = (case a of None \<Rightarrow> False | Some s \<Rightarrow> s \<noteq> [])"

definition truthy_number :: "int option \<Rightarrow> bool" where
  "truthy_number a = (case a of None \<Rightarrow> False | Some n \<Rightarrow> n \<noteq> 0)"

section \<open>Planner operations\<close>

abbreviation click_execute :: string where
  "click_execute \<equiv> ''Click '' @ dq @ ''Execute Commands'' @ dq
      @ '' in the browser extension to apply.''"

subsection \<open>\<open>close_tabs\<close>\<close>

definition tabsToClose :: "tab list \<Rightarrow> args \<Rightarrow> tab list" where
  "tabsToClose ts a =
     (if (case tabIds_arg a of None \<Rightarrow> False | Some ids \<Rightarrow> length ids > 0)
      then filter (\<lambda>t. tab_id t \<in> set (the (tabIds_arg a))) ts
      else if truthy_string (domain_arg a)
      then filter (\<lambda>t. str_includes (domain t) (toLowerCase (the (domain_arg a)))) ts
      else if truthy_string (urlPattern_arg a)
      then filter (\<lambda>t. str_includes (toLowerCase (url t))
                          (toLowerCase (the (urlPattern_arg a)))) ts
      else [])"

definition close_tabs :: "snapshot \<Rightarrow> args \<Rightarrow> world \<Rightarrow> string \<times> world" where
  "close_tabs d a w =
     (let sel = tabsToClose (tabs d) a
      in if length sel = 0 then (''No matching tabs found to close.'', w)
         else (''Queued '' @ show_nat (length sel) @ '' tabs for closing:'' @ nl
                 @ join nl (map (\<lambda>t. ''- '' @ title t) sel) @ nl @ nl @ click_execute,
               writeCommand (Close_tabs (map tab_id sel)
                               (''Close '' @ show_nat (length sel) @ '' tabs'')) w))"

subsection \<open>\<open>close_duplicate_tabs\<close>\<close>

text \<open>
  \<open>urlMap\<close> is a fresh object literal used as a dictionary.  The test \<open>urlMap[t.url]\<close> is
  true for a key stored earlier (the stored value is a tab object) and also for the name of
  a member that every object inherits from \<open>Object.prototype\<close> (these are functions, and
  \<open>__proto__\<close> is an object).  Such a key is never stored, because the test already
  succeeds.
\<close>

definition object_prototype_keys :: "string list" where
  "object_prototype_keys =
     [''constructor'', ''__defineGetter__'', ''__defineSetter__'', ''hasOwnProperty'',
      ''__lookupGetter__'', ''__lookupSetter__'', ''isPrototypeOf'', ''propertyIsEnumerable'',
      ''toString'', ''valueOf'', ''__proto__'', ''toLocaleString'']"

definition urlMap_truthy :: "(string \<times> tab) list \<Rightarrow> string \<Rightarrow> bool" where
  "urlMap_truthy urlMap u = (map_of urlMap u \<noteq> None \<or> u \<in> set object_prototype_keys)"

text \<open>
  What the browser reports as the URL of a tab: an absolute URL, which has a scheme and a
  colon, or the empty string.
\<close>

definition browser_url :: "string \<Rightarrow> bool" where
  "browser_url u = (u = [] \<or> CHR '':'' \<in> set u)"

text \<open>The \<open>tabs.forEach\<close> that fills \<open>urlMap\<close> and \<open>duplicateIds\<close>.\<close>

fun duplicateIds :: "(string \<times> tab) list \<Rightarrow> tab list \<Rightarrow> int list" where
  "duplicateIds urlMap [] = []"
| "duplicateIds urlMap (t # ts) =
     (if urlMap_truthy urlMap (url t) then tab_id t # duplicateIds urlMap ts
      else duplicateIds ((url t, t) # urlMap) ts)"

definition close_duplicate_tabs :: "snapshot \<Rightarrow> world \<Rightarrow> string \<times> world" where
  "close_duplicate_tabs d w =
     (let ids = duplicateIds [] (tabs d)
      in if length ids = 0 then (''No duplicate tabs found!'', w)
         else (''Queued '' @ show_nat (length ids) @ '' duplicate tabs for closing.''
                 @ nl @ nl @ click_execute,
               writeCommand (Close_tabs ids
                               (''Close '' @ show_nat (length ids) @ '' duplicate tabs'')) w))"

subsection \<open>\<open>create_tab_group\<close>\<close>

definition create_tab_group :: "snapshot \<Rightarrow> args \<Rightarrow> world \<Rightarrow> string \<times> world" where
  "create_tab_group d a w =
     (if \<not> truthy_string (name_arg a) \<or> \<not> truthy_string (domain_arg a)
      then (''Please provide both name and domain for the tab group.'', w)
      else let nm = the (name_arg a);
               dm = the (domain_arg a);
               matchingTabs = filter (\<lambda>t. str_includes (domain t) (toLowerCase dm)) (tabs d)
           in if length matchingTabs = 0
              then (''No tabs found matching domain '' @ dq @ dm @ dq, w)
              else (''Queued '' @ show_nat (length matchingTabs) @ '' tabs to be grouped as ''
                      @ dq @ nm @ dq @ '':'' @ nl
                      @ join nl (map (\<lambda>t. ''- '' @ title t) matchingTabs)
                      @ nl @ nl @ click_execute,
                    writeCommand
                      (Create_group (map tab_id matchingTabs) nm
                         (if truthy_string (color_arg a) then the (color_arg a) else ''blue'')
                         (''Group '' @ show_nat (length matchingTabs) @ '' tabs as ''
                            @ dq @ nm @ dq)) w))"

subsection \<open>\<open>focus_tab\<close>\<close>

definition targetTab :: "tab list \<Rightarrow> args \<Rightarrow> tab option" where
  "targetTab ts a =
     (if truthy_number (tabId_arg a)
      then find (\<lambda>t. tab_id t = the (tabId_arg a)) ts
      else if truthy_string (search_arg a)
      then (let s = toLowerCase (the (search_arg a))
            in find (\<lambda>t. str_includes (toLowerCase (title t)) s
                        \<or> str_includes (toLowerCase (url t)) s) ts)
      else None)"

definition focus_tab :: "snapshot \<Rightarrow> args \<Rightarrow> world \<Rightarrow> string \<times> world" where
  "focus_tab d a w =
     (case targetTab (tabs d) a of
        None \<Rightarrow> (''Tab not found.'', w)
      | Some t \<Rightarrow>
          (''Queued focus on: '' @ title t @ nl @ nl @ click_execute,
           writeCommand (Focus_tab (tab_id t) (windowId t) (''Focus: '' @ title t)) w))"

subsection \<open>\<open>auto_organize_tabs\<close>\<close>

text \<open>
  \<open>categorizedTabs\<close> is an object keyed by category name; \<open>Object.entries\<close> visits its keys
  in the order in which they were first assigned.  It is a list of
  (name, color, tabs) in that order.  The keys are the fourteen catalog names and
  \<open>Other\<close>.
\<close>

type_synonym buckets = "(string \<times> string \<times> tab list) list"

fun add_to_category :: "string \<Rightarrow> string \<Rightarrow> tab \<Rightarrow> buckets \<Rightarrow> buckets" where
  "add_to_category n c t [] = [(n, c, [t])]"
| "add_to_category n c t ((n', c', ts) # rest) =
     (if n = n' then (n', c', ts @ [t]) # rest else (n', c', ts) # add_to_category n c t rest)"

text \<open>The guard at the head of the \<open>tabsToProcess.forEach\<close> body.\<close>

definition skipped :: "tab \<Rightarrow> bool" where
  "skipped t = (pinned t \<or> startsWith (url t) ''chrome://''
                 \<or> startsWith (url t) ''chrome-extension://'')"

definition assign_tab :: "buckets \<Rightarrow> tab \<Rightarrow> buckets" where
  "assign_tab categorizedTabs t =
     (if skipped t then categorizedTabs
      else case assign_category t categoryDefinitions of
             Some c \<Rightarrow> add_to_category (name c) (color c) t categorizedTabs
           | None \<Rightarrow> add_to_category ''Other'' ''grey'' t categorizedTabs)"

definition tabsToProcess :: "bool \<Rightarrow> tab list \<Rightarrow> tab list" where
  "tabsToProcess closeDuplicates ts =
     (if closeDuplicates
      then filter (\<lambda>t. tab_id t \<notin> set (duplicateIds [] ts)) ts
      else ts)"

definition categorizedTabs :: "bool \<Rightarrow> tab list \<Rightarrow> buckets" where
  "categorizedTabs closeDuplicates ts = foldl assign_tab [] (tabsToProcess closeDuplicates ts)"

definition groupCommands :: "buckets \<Rightarrow> command list" where
  "groupCommands bs =
     map (\<lambda>(n, c, ts). Create_group (map tab_id ts) n c
                          (''Group '' @ show_nat (length ts) @ '' tabs as '' @ dq @ n @ dq))
         (filter (\<lambda>(n, c, ts). length ts > 0) bs)"

definition summary :: "buckets \<Rightarrow> string list" where
  "summary bs =
     map (\<lambda>(n, c, ts). n @ '': '' @ show_nat (length ts) @ '' tabs'')
         (filter (\<lambda>(n, c, ts). length ts > 0) bs)"

text \<open>\<open>groupCommands.forEach(cmd => writeCommand(cmd))\<close>\<close>

definition writeCommands :: "command list \<Rightarrow> world \<Rightarrow> world" where
  "writeCommands cs w = foldl (\<lambda>w' c. writeCommand c w') w cs"

definition auto_organize_tabs :: "snapshot \<Rightarrow> args \<Rightarrow> world \<Rightarrow> string \<times> world" where
  "auto_organize_tabs d a w =
     (let closeDuplicates = (closeDuplicates_arg a = Some True);
          ids = (if closeDuplicates then duplicateIds [] (tabs d) else []);
          bs = categorizedTabs closeDuplicates (tabs d);
          cmds = groupCommands bs;
          w1 = (if closeDuplicates \<and> length ids > 0
                then writeCommand (Close_tabs ids
                       (''Close '' @ show_nat (length ids) @ '' duplicate tabs'')) w
                else w);
          w2 = writeCommands cmds w1
      in if length cmds = 0
         then (''No tabs to organize (all tabs are pinned or extension pages).'', w2)
         else (''Queued auto-organization:'' @ nl
                 @ (if closeDuplicates \<and> length ids > 0
                    then ''- Close '' @ show_nat (length ids) @ '' duplicates'' @ nl else [])
                 @ ''- Create '' @ show_nat (length cmds) @ '' tab groups:'' @ nl @ ''  ''
                 @ join (nl @ ''  '') (summary bs) @ nl @ nl @ click_execute,
               w2))"

subsection \<open>\<open>ungroup_all_tabs\<close> and the in-groups count of \<open>get_tab_stats\<close>\<close>

text \<open>\<open>t.groupId && t.groupId !== -1\<close>: the number \<open>0\<close> is falsy.\<close>

definition in_group :: "tab \<Rightarrow> bool" where
  "in_group t = (groupId t \<noteq> 0 \<and> groupId t \<noteq> - 1)"

definition groupedTabs :: "tab list \<Rightarrow> tab list" where
  "groupedTabs ts = filter in_group ts"

definition groupName :: "tab_group list \<Rightarrow> tab \<Rightarrow> string" where
  "groupName gs t =
     (case find (\<lambda>g. group_id g = groupId t) gs of
        Some g \<Rightarrow> (if group_title g \<noteq> [] then group_title g else ''Unnamed'')
      | None \<Rightarrow> ''Unknown'')"

definition ungroup_all_tabs :: "snapshot \<Rightarrow> world \<Rightarrow> string \<times> world" where
  "ungroup_all_tabs d w =
     (let sel = groupedTabs (tabs d)
      in if length sel = 0 then (''No tabs are currently in groups.'', w)
         else let groupNames = uniq (map (groupName (groups d)) sel)
              in (''Queued '' @ show_nat (length sel) @ '' tabs to be ungrouped from ''
                    @ show_nat (length groupNames) @ '' groups:'' @ nl @ ''- ''
                    @ join (nl @ ''- '') groupNames @ nl @ nl
                    @ ''Empty groups will be automatically removed.'' @ nl @ nl @ click_execute,
                  writeCommand
                    (Ungroup_tabs (map tab_id sel)
                       (''Ungroup '' @ show_nat (length sel) @ '' tabs from ''
                          @ show_nat (length groupNames) @ '' groups'')) w))"

subsection \<open>\<open>shuffle_tabs\<close>\<close>

definition shufflableTabs :: "tab list \<Rightarrow> tab list" where
  "shufflableTabs ts =
     filter (\<lambda>t. \<not> pinned t \<and> \<not> startsWith (url t) ''chrome://''
                 \<and> \<not> startsWith (url t) ''chrome-extension://'') ts"

text \<open>
  \<open>[shuffled[i], shuffled[j]] = [shuffled[j], shuffled[i]]\<close>: both reads happen before
  both writes.
\<close>

definition swap :: "nat \<Rightarrow> nat \<Rightarrow> 'a list \<Rightarrow> 'a list" where
  "swap i j xs = (xs[i := xs ! j])[j := xs ! i]"

text \<open>
  \<open>for (let i = shuffled.length - 1; i > 0; i--)\<close>: \<open>fisher_yates r i xs\<close> runs the loop
  from index \<open>i\<close> down to \<open>1\<close>.
\<close>

fun fisher_yates :: "(nat \<Rightarrow> nat) \<Rightarrow> nat \<Rightarrow> 'a list \<Rightarrow> 'a list" where
  "fisher_yates r 0 xs = xs"
| "fisher_yates r (Suc i) xs = fisher_yates r i (swap (Suc i) (r (Suc i)) xs)"

definition moves_of :: "tab list \<Rightarrow> move list" where
  "moves_of shuffled =
     map (\<lambda>(newIndex, t). \<lparr>move_tabId = tab_id t, move_windowId = windowId t,
                            move_index = newIndex\<rparr>)
         (enumerate 0 shuffled)"

definition shuffle_tabs :: "snapshot \<Rightarrow> world \<Rightarrow> string \<times> world" where
  "shuffle_tabs d w =
     (let sel = shufflableTabs (tabs d)
      in if length sel < 2 then (''Not enough tabs to shuffle.'', w)
         else let shuffled = fisher_yates (random_floor w) (length sel - 1) sel
              in (''Queued '' @ show_nat (length shuffled) @ '' tabs to be shuffled randomly.''
                    @ nl @ nl @ click_execute,
                  writeCommand
                    (Shuffle_tabs (moves_of shuffled)
                       (''Shuffle '' @ show_nat (length shuffled) @ '' tabs randomly'')) w))"

section \<open>Analysis tools\<close>

text \<open>
  The analysis tools build dictionaries out of object literals (\<open>domainCounts\<close>,
  \<open>urlCounts\<close>, \<open>categorized\<close>, \<open>contextKeywords\<close>).  They are association lists here,
  in the order in which \<open>Object.entries\<close> visits string keys, the order of first
  assignment.  Where the code fails on a key that names an inherited member of
  \<open>Object.prototype\<close> the model returns \<open>TypeError\<close>; the counting dictionaries are
  modelled for keys that are not such names and not canonical array indices.
\<close>

datatype failure = TypeError

text \<open>\<open>counts[k] = (counts[k] || 0) + 1\<close>\<close>

fun count_key :: "string \<Rightarrow> (string \<times> nat) list \<Rightarrow> (string \<times> nat) list" where
  "count_key k [] = [(k, 1)]"
| "count_key k ((k', n) # rest) =
     (if k = k' then (k', n + 1) # rest else (k', n) # count_key k rest)"

definition domainCounts :: "tab list \<Rightarrow> (string \<times> nat) list" where
  "domainCounts ts = foldl (\<lambda>counts t. count_key (domain t) counts) [] ts"

definition urlCounts :: "tab list \<Rightarrow> (string \<times> nat) list" where
  "urlCounts ts = foldl (\<lambda>counts t. count_key (url t) counts) [] ts"

text \<open>\<open>groups[k] = groups[k] || []; groups[k].push(t)\<close>\<close>

fun push_tab :: "string \<Rightarrow> tab \<Rightarrow> (string \<times> tab list) list \<Rightarrow> (string \<times> tab list) list" where
  "push_tab k t [] = [(k, [t])]"
| "push_tab k t ((k', ts) # rest) =
     (if k = k' then (k', ts @ [t]) # rest else (k', ts) # push_tab k t rest)"

subsection \<open>\<open>list_tabs\<close>\<close>

definition pushpin :: string where
  "pushpin = [CHR 0xF0, CHR 0x9F, CHR 0x93, CHR 0x8C]"

definition speaker :: string where
  "speaker = [CHR 0xF0, CHR 0x9F, CHR 0x94, CHR 0x8A]"

definition list_tabs :: "string \<Rightarrow> snapshot \<Rightarrow> args \<Rightarrow> string" where
  "list_tabs dataAge d a =
     (let filtered = tabs d;
          filtered = (if truthy_string (domain_arg a)
                      then filter (\<lambda>t. str_includes (domain t)
                                          (toLowerCase (the (domain_arg a)))) filtered
                      else filtered);
          filtered = (if truthy_string (search_arg a)
                      then (let search = toLowerCase (the (search_arg a))
                            in filter (\<lambda>t. str_includes (toLowerCase (title t)) search
                                          \<or> str_includes (toLowerCase (url t)) search) filtered)
                      else filtered);
          output = join (nl @ nl)
                     (map (\<lambda>(i, t). show_nat (i + 1) @ ''. '' @ title t @ nl @ ''   '' @ url t
                                      @ nl @ ''   ['' @ domain t @ ''] ''
                                      @ (if pinned t then pushpin else []) @ '' ''
                                      @ (if audible t then speaker else []))
                          (enumerate 0 filtered))
      in ''Found '' @ show_nat (length filtered) @ '' tabs (data from '' @ dataAge @ ''):''
           @ nl @ nl @ output)"

subsection \<open>\<open>group_tabs_by_domain\<close>\<close>

text \<open>
  \<open>sort((a, b) => b[1] - a[1])\<close> is a stable sort by descending count, and
  \<^const>\<open>sort_key\<close> is stable.
\<close>

definition group_tabs_by_domain :: "snapshot \<Rightarrow> string" where
  "group_tabs_by_domain d =
     (let counts = domainCounts (tabs d);
          sorted = join nl
                     (map (\<lambda>(dm, count). dm @ '': '' @ show_nat count @ '' tab''
                                           @ (if count > 1 then ''s'' else []))
                          (sort_key (\<lambda>(dm, count). - int count) counts))
      in ''Tabs grouped by domain ('' @ show_nat (length counts) @ '' unique domains):''
           @ nl @ nl @ sorted)"

subsection \<open>\<open>find_duplicate_tabs\<close>\<close>

definition find_duplicate_tabs :: "snapshot \<Rightarrow> failure + string" where
  "find_duplicate_tabs d =
     (if \<exists>t \<in> set (tabs d). url t \<in> set object_prototype_keys then Inl TypeError
      else let byUrl = foldl (\<lambda>m t. push_tab (url t) t m) [] (tabs d);
               duplicates = join (nl @ nl)
                  (map (\<lambda>(u, ts). show_nat (length ts) @ ''x: '' @ title (hd ts) @ nl
                                    @ ''   '' @ u)
                       (filter (\<lambda>(u, ts). length ts > 1) byUrl))
           in if duplicates = [] then Inr ''No duplicate tabs found!''
              else Inr (''Found duplicate tabs:'' @ nl @ nl @ duplicates))"

subsection \<open>\<open>find_old_tabs\<close>\<close>

definition accessed :: "tab \<Rightarrow> int" where
  "accessed t = (case lastAccessed t of None \<Rightarrow> 0 | Some v \<Rightarrow> v)"

text \<open>\<open>t.lastAccessed && t.lastAccessed < cutoff\<close>\<close>

definition older_than :: "int \<Rightarrow> tab \<Rightarrow> bool" where
  "older_than cutoff t = (truthy_number (lastAccessed t) \<and> accessed t < cutoff)"

text \<open>The \<open>map\<close> over the old tabs; every element calls \<open>formatAge\<close>, which reads the clock.\<close>

fun old_tab_lines :: "tab list \<Rightarrow> world \<Rightarrow> string list \<times> world" where
  "old_tab_lines [] w = ([], w)"
| "old_tab_lines (t # ts) w =
     (let (age, w1) = formatAge (accessed t) w;
          (rest, w2) = old_tab_lines ts w1
      in ((title t @ nl @ ''   '' @ domain t @ '' - last accessed '' @ age) # rest, w2))"

definition find_old_tabs :: "snapshot \<Rightarrow> args \<Rightarrow> world \<Rightarrow> string \<times> world" where
  "find_old_tabs d a w =
     (let hours = (if truthy_number (hours_arg a) then the (hours_arg a) else 24);
          (now, w1) = Date_now w;
          cutoff = now - hours * 60 * 60 * 1000;
          (oldTabs, w2) = old_tab_lines (sort_key accessed (filter (older_than cutoff) (tabs d))) w1
      in if length oldTabs = 0
         then (''No tabs older than '' @ show_int hours @ '' hours found.'', w2)
         else (''Found '' @ show_nat (length oldTabs) @ '' tabs not accessed in ''
                 @ show_int hours @ ''+ hours:'' @ nl @ nl @ join (nl @ nl) oldTabs, w2))"

subsection \<open>\<open>get_tab_stats\<close>\<close>

definition groupedCount :: "tab list \<Rightarrow> nat" where
  "groupedCount ts = length (filter in_group ts)"

definition get_tab_stats :: "string \<Rightarrow> snapshot \<Rightarrow> string" where
  "get_tab_stats dataAge d =
     ''Tab Statistics (data from '' @ dataAge @ ''):'' @ nl
       @ ''- Total tabs: '' @ show_int (tabCount d) @ nl
       @ ''- Windows: '' @ show_int (windowCount d) @ nl
       @ ''- Unique domains: '' @ show_nat (length (uniq (map domain (tabs d)))) @ nl
       @ ''- Pinned tabs: '' @ show_nat (length (filter pinned (tabs d))) @ nl
       @ ''- Playing audio: '' @ show_nat (length (filter audible (tabs d))) @ nl
       @ ''- In groups: '' @ show_nat (groupedCount (tabs d)) @ nl
       @ ''- Tab groups: '' @ show_nat (length (groups d))"

subsection \<open>\<open>find_tabs_by_category\<close>\<close>

text \<open>The body of \<open>tabs.forEach\<close>, on the pair (\<open>categorized\<close>, \<open>uncategorized\<close>).\<close>

definition categorize_tab ::
  "(string \<times> tab list) list \<times> tab list \<Rightarrow> tab \<Rightarrow> (string \<times> tab list) list \<times> tab list" where
  "categorize_tab acc t =
     (case find_category t categories of
        Some category \<Rightarrow> (push_tab category t (fst acc), snd acc)
      | None \<Rightarrow> (fst acc, snd acc @ [t]))"

definition categorize :: "tab list \<Rightarrow> (string \<times> tab list) list \<times> tab list" where
  "categorize ts = foldl categorize_tab ([], []) ts"

definition find_tabs_by_category :: "snapshot \<Rightarrow> string" where
  "find_tabs_by_category d =
     (let (categorized, uncategorized) = categorize (tabs d);
          output = concat
                     (map (\<lambda>(category, ts).
                             nl @ category @ '' ('' @ show_nat (length ts) @ ''):'' @ nl
                               @ concat (map (\<lambda>t. ''  - '' @ title t @ nl) ts))
                          categorized);
          output = (if length uncategorized > 0
                    then output @ nl @ ''Other ('' @ show_nat (length uncategorized) @ ''):''
                           @ nl
                           @ concat (map (\<lambda>t. ''  - '' @ title t @ '' ['' @ domain t @ '']'' @ nl)
                                         (take 10 uncategorized))
                           @ (if length uncategorized > 10
                              then ''  ... and '' @ show_nat (length uncategorized - 10)
                                     @ '' more'' @ nl
                              else [])
                    else output)
      in ''Tabs by category:'' @ output)"

subsection \<open>\<open>suggest_tab_organization\<close>\<close>

definition suggest_tab_organization :: "snapshot \<Rightarrow> world \<Rightarrow> string \<times> world" where
  "suggest_tab_organization d w =
     (let multiple = filter (\<lambda>c. c > 1) (map snd (urlCounts (tabs d)));
          duplicateCount = int (sum_list multiple) - int (length multiple);
          s1 = (if duplicateCount > 0
                then [''Close '' @ show_int duplicateCount @ '' duplicate tabs''] else []);
          largeClusters = filter (\<lambda>(dm, c). c \<ge> 5) (domainCounts (tabs d));
          s2 = map (\<lambda>(dm, c). ''Group '' @ show_nat c @ '' tabs from '' @ dm @ '' together'')
                   largeClusters;
          s3 = (if tabCount d > 50
                then [''Consider closing some tabs - '' @ show_int (tabCount d) @ '' is a lot!'']
                else []);
          (now, w1) = Date_now w;
          dayAgo = now - 24 * 60 * 60 * 1000;
          oldCount = length (filter (older_than dayAgo) (tabs d));
          s4 = (if oldCount > 5
                then [''Review '' @ show_nat oldCount @ '' tabs not accessed in 24+ hours'']
                else []);
          suggestions = s1 @ s2 @ s3 @ s4
      in (if length suggestions > 0
          then ''Suggestions for organizing your '' @ show_int (tabCount d) @ '' tabs:''
                 @ nl @ nl
                 @ join nl (map (\<lambda>(i, s). show_nat (i + 1) @ ''. '' @ s)
                                (enumerate 0 suggestions))
          else ''Your tabs look pretty well organized!'',
          w1))"

subsection \<open>\<open>suggest_focus_tabs\<close>\<close>

definition contextKeywords :: "(string \<times> string list) list" where
  "contextKeywords =
     [(''coding'', [''github'', ''stackoverflow'', ''docs'', ''localhost'', ''npm'', ''developer'']),
      (''code'', [''github'', ''stackoverflow'', ''docs'', ''localhost'', ''npm'', ''developer'']),
      (''research'', [''scholar'', ''arxiv'', ''wikipedia'', ''paper'', ''research'', ''docs'']),
      (''email'', [''mail'', ''outlook'', ''gmail'', ''inbox'']),
      (''emails'', [''mail'', ''outlook'', ''gmail'', ''inbox'']),
      (''work'', [''jira'', ''confluence'', ''slack'', ''teams'', ''notion'', ''docs.google'',
                  ''drive'']),
      (''meeting'', [''zoom'', ''meet.google'', ''teams'', ''calendar'']),
      (''meetings'', [''zoom'', ''meet.google'', ''teams'', ''calendar''])]"

text \<open>
  \<open>contextKeywords[context] || [context]\<close> is not an array when \<open>context\<close> names an
  inherited member; \<open>keywords.some\<close> then throws at the first tab that the filter visits.
\<close>

definition suggest_focus_tabs :: "snapshot \<Rightarrow> args \<Rightarrow> failure + string" where
  "suggest_focus_tabs d a =
     (let context = (case context_arg a of None \<Rightarrow> [] | Some c \<Rightarrow> toLowerCase c)
      in if context \<noteq> [] \<and> context \<in> set object_prototype_keys \<and> tabs d \<noteq> []
         then Inl TypeError
         else
          let relevantTabs =
                (if context \<noteq> []
                 then (let keywords = (case map_of contextKeywords context of
                                         Some ks \<Rightarrow> ks | None \<Rightarrow> [context])
                       in filter (\<lambda>t. list_ex (\<lambda>k. str_includes (domain t) k
                                                  \<or> str_includes (toLowerCase (title t)) k
                                                  \<or> str_includes (toLowerCase (url t)) k)
                                              keywords) (tabs d))
                 else tabs d);
              top = take 5 (sort_key (\<lambda>t. - accessed t) relevantTabs);
              output = join (nl @ nl)
                         (map (\<lambda>(i, t). show_nat (i + 1) @ ''. '' @ title t @ nl @ ''   '' @ url t)
                              (enumerate 0 top))
          in if length top = 0
             then Inr (if context \<noteq> []
                       then ''No tabs found related to '' @ dq @ context @ dq
                              @ ''. Try a different context or sync your tabs again.''
                       else ''Sync your tabs first to get focus suggestions.'')
             else Inr (if context \<noteq> []
                       then ''Top tabs for '' @ dq @ context @ dq @ '':'' @ nl @ nl @ output
                       else ''Your most recently accessed tabs:'' @ nl @ nl @ output))"

section \<open>The request handler\<close>

definition no_tab_data :: string where
  "no_tab_data = ''No tab data found. Please click the '' @ dq @ ''Sync Tabs to Claude'' @ dq
     @ '' button in the browser extension first.''"

text \<open>The \<open>switch (name)\<close> of the handler; \<open>dataAge\<close> has been computed before it.\<close>

definition tool_switch ::
  "string \<Rightarrow> string \<Rightarrow> snapshot \<Rightarrow> args \<Rightarrow> world \<Rightarrow> failure + (string \<times> world)" where
  "tool_switch tool dataAge d a w =
     (if tool = ''list_tabs'' then Inr (list_tabs dataAge d a, w)
      else if tool = ''group_tabs_by_domain'' then Inr (group_tabs_by_domain d, w)
      else if tool = ''find_duplicate_tabs''
        then (case find_duplicate_tabs d of Inl e \<Rightarrow> Inl e | Inr text \<Rightarrow> Inr (text, w))
      else if tool = ''find_old_tabs'' then Inr (find_old_tabs d a w)
      else if tool = ''get_tab_stats'' then Inr (get_tab_stats dataAge d, w)
      else if tool = ''find_tabs_by_category'' then Inr (find_tabs_by_category d, w)
      else if tool = ''suggest_tab_organization'' then Inr (suggest_tab_organization d w)
      else if tool = ''suggest_focus_tabs''
        then (case suggest_focus_tabs d a of Inl e \<Rightarrow> Inl e | Inr text \<Rightarrow> Inr (text, w))
      else if tool = ''close_tabs'' then Inr (close_tabs d a w)
      else if tool = ''close_duplicate_tabs'' then Inr (close_duplicate_tabs d w)
      else if tool = ''create_tab_group'' then Inr (create_tab_group d a w)
      else if tool = ''focus_tab'' then Inr (focus_tab d a w)
      else if tool = ''auto_organize_tabs'' then Inr (auto_organize_tabs d a w)
      else if tool = ''ungroup_all_tabs'' then Inr (ungroup_all_tabs d w)
      else if tool = ''shuffle_tabs'' then Inr (shuffle_tabs d w)
      else Inr (''Unknown tool: '' @ tool, w))"

text \<open>
  The handler of \<open>CallToolRequestSchema\<close>: the early return when \<open>loadTabs\<close> gives
  \<open>null\<close>, then \<open>formatAge(timestamp)\<close>, then the \<open>switch\<close> on the tool name.
\<close>

definition call_tool :: "string \<Rightarrow> args \<Rightarrow> world \<Rightarrow> failure + (string \<times> world)" where
  "call_tool tool a w =
     (case loadTabs w of
        None \<Rightarrow> Inr (no_tab_data, w)
      | Some d \<Rightarrow>
          (let (dataAge, w1) = formatAge (timestamp d) w
           in tool_switch tool dataAge d a w1))"

section \<open>Notions used to state the properties of \<open>auto_organize_tabs\<close>\<close>

text \<open>
  The name under which \<open>auto_organize_tabs\<close> files a tab that it does not skip, and the
  color that goes with a name.
\<close>

definition category_of :: "tab \<Rightarrow> string" where
  "category_of t =
     (case assign_category t categoryDefinitions of Some c \<Rightarrow> name c | None \<Rightarrow> ''Other'')"

definition color_of :: "string \<Rightarrow> string" where
  "color_of n =
     (case find (\<lambda>c. name c = n) categoryDefinitions of Some c \<Rightarrow> color c | None \<Rightarrow> ''grey'')"

text \<open>
  The records that successive calls of \<open>writeCommand\<close> append for the commands \<open>cs\<close>, the
  first of them at clock reading number \<open>k\<close>.
\<close>

primrec queued_from :: "world \<Rightarrow> nat \<Rightarrow> command list \<Rightarrow> queued list" where
  "queued_from w k [] = []"
| "queued_from w k (c # cs) =
     \<lparr>command = c, cmd_id = clock w k, status = ''pending''\<rparr> # queued_from w (Suc k) cs"

text \<open>The tabs that \<open>auto_organize_tabs\<close> files into a category.\<close>

definition filed_tabs :: "snapshot \<Rightarrow> args \<Rightarrow> tab list" where
  "filed_tabs d a =
     filter (\<lambda>t. \<not> skipped t) (tabsToProcess (closeDuplicates_arg a = Some True) (tabs d))"

text \<open>The close command that \<open>auto_organize_tabs\<close> writes first, if it writes one.\<close>

definition close_first :: "snapshot \<Rightarrow> args \<Rightarrow> command list" where
  "close_first d a =
     (if closeDuplicates_arg a = Some True \<and> duplicateIds [] (tabs d) \<noteq> []
      then [Close_tabs (duplicateIds [] (tabs d))
              (''Close '' @ show_nat (length (duplicateIds [] (tabs d))) @ '' duplicate tabs'')]
      else [])"

text \<open>
  The second world arises from the first by calls of \<open>writeCommand\<close>, and, for
  \<open>evolves\<close>, by readings of the clock before them.
\<close>

definition writes :: "world \<Rightarrow> world \<Rightarrow> bool" where
  "writes w w' = (\<exists>cs. w' = writeCommands cs w)"

definition evolves :: "world \<Rightarrow> world \<Rightarrow> bool" where
  "evolves w w' = (\<exists>n cs. w' = writeCommands cs (w\<lparr>ticks := ticks w + n\<rparr>))"

section \<open>Example inputs\<close>

text \<open>Concrete tabs and snapshots at which the theorems below are evaluated.\<close>

definition tab_at :: "int \<Rightarrow> string \<Rightarrow> string \<Rightarrow> tab" where
  "tab_at i u d = \<lparr>tab_id = i, windowId = 1, tabIndex = 0, title = ''t'', url = u, domain = d,
     pinned = False, active = False, groupId = - 1, lastAccessed = None, audible = False,
     favIconUrl = []\<rparr>"

definition tab_two_analysis :: tab where
  "tab_two_analysis = tab_at 1 ''https://news.ycombinator.com/?q=github.com'' ''news.ycombinator.com''"

definition tab_two_auto :: tab where
  "tab_two_auto = tab_at 2 ''https://github.com/docs/readme'' ''github.com''"

definition snapshot_of :: "tab list \<Rightarrow> snapshot" where
  "snapshot_of ts = \<lparr>timestamp = 0, windowCount = 1, tabCount = int (length ts), groups = [],
     tabs = ts\<rparr>"

definition world_at :: "snapshot option \<Rightarrow> world" where
  "world_at f = \<lparr>tabs_file = f, commands = [], clock = (\<lambda>k. 1000 + int k), ticks = 0,
     random_floor = (\<lambda>i. 0)\<rparr>"

definition tab_mixed_case :: tab where
  "tab_mixed_case = tab_at 1 ''https://example.com/?to=GitHub.com'' ''example.com''"

definition tab_group_zero :: tab where
  "tab_group_zero = (tab_at 1 ''https://example.com/'' ''example.com'')\<lparr>groupId := 0\<rparr>"

definition tabs_some_grouped :: "tab list" where
  "tabs_some_grouped =
     [tab_at 1 ''https://a.example/'' ''a.example'',
      (tab_at 2 ''https://b.example/'' ''b.example'')\<lparr>groupId := 0\<rparr>,
      (tab_at 3 ''https://c.example/'' ''c.example'')\<lparr>groupId := 5\<rparr>,
      (tab_at 4 ''https://d.example/'' ''d.example'')\<lparr>groupId := 7\<rparr>]"

definition tabs_with_duplicates :: "tab list" where
  "tabs_with_duplicates =
     [tab_at 1 ''https://a.example/'' ''a.example'',
      tab_at 2 ''https://b.example/'' ''b.example'',
      tab_at 3 ''https://a.example/'' ''a.example'',
      tab_at 4 ''https://a.example/'' ''a.example'']"

definition tabs_to_shuffle :: "tab list" where
  "tabs_to_shuffle =
     [tab_at 1 ''https://a.example/'' ''a.example'',
      (tab_at 2 ''https://b.example/'' ''b.example'')\<lparr>pinned := True\<rparr>,
      (tab_at 3 ''https://c.example/'' ''c.example'')\<lparr>windowId := 2\<rparr>,
      tab_at 4 ''chrome://settings/'' ''settings'',
      tab_at 5 ''https://d.example/'' ''d.example'']"

definition no_args :: args where
  "no_args = \<lparr>domain_arg = None, search_arg = None, hours_arg = None, context_arg = None,
     urlPattern_arg = None, tabIds_arg = None, name_arg = None, color_arg = None,
     tabId_arg = None, closeDuplicates_arg = None\<rparr>"

definition args_close_duplicates :: args where
  "args_close_duplicates = no_args\<lparr>closeDuplicates_arg := Some True\<rparr>"

definition tabs_docs_then_github :: "tab list" where
  "tabs_docs_then_github =
     [tab_at 1 ''https://docs.python.org/3/'' ''docs.python.org'',
      tab_at 2 ''https://github.com/a/b'' ''github.com'',
      (tab_at 3 ''https://github.com/c/d'' ''github.com'')\<lparr>pinned := True\<rparr>,
      tab_at 4 ''chrome://settings/'' ''settings'',
      tab_at 5 ''https://github.com/a/b'' ''github.com'']"

definition tabs_pinned_duplicate :: "tab list" where
  "tabs_pinned_duplicate =
     [tab_at 1 ''https://github.com/a/b'' ''github.com'',
      (tab_at 2 ''https://github.com/a/b'' ''github.com'')\<lparr>pinned := True\<rparr>]"

definition tabs_all_pinned :: "tab list" where
  "tabs_all_pinned =
     [(tab_at 1 ''https://github.com/a/b'' ''github.com'')\<lparr>pinned := True\<rparr>,
      (tab_at 2 ''https://github.com/a/b'' ''github.com'')\<lparr>pinned := True\<rparr>]"

definition world_synced :: "tab list \<Rightarrow> world" where
  "world_synced ts = world_at (Some (snapshot_of ts))"

definition world_same_ms :: world where
  "world_same_ms = (world_synced tabs_docs_then_github)\<lparr>clock := (\<lambda>k. 1000)\<rparr>"

section \<open>Facts about strings\<close>

lemma startsWith_prefix: "startsWith s p = prefix p s"
  by (induction s p rule: startsWith.induct) auto

lemma str_includes_sublist: "str_includes s p = sublist p s"
proof (induction s)
  case Nil
  show ?case by auto
next
  case (Cons a s)
  show ?case
    using Cons.IH by (simp add: startsWith_prefix sublist_Cons_right)
qed

lemma sublist_toLowerCase:
  assumes "sublist p s"
  shows "sublist (toLowerCase p) (toLowerCase s)"
proof -
  from assms obtain a b where "s = a @ p @ b"
    by (auto simp: sublist_def)
  then have "toLowerCase s = toLowerCase a @ toLowerCase p @ toLowerCase b"
    by (simp add: toLowerCase_def)
  then show ?thesis
    unfolding sublist_def by blast
qed

section \<open>First match wins\<close>

lemma category_matches_iff: "category_matches t ps = contains_pattern t ps"
  by (auto simp: category_matches_def contains_pattern_def list_ex_iff str_includes_sublist)

lemma contains_definition_matches:
  assumes "contains_pattern t (patterns c)"
  shows "definition_matches t c"
proof -
  from assms obtain p where p: "p \<in> set (patterns c)"
    and "sublist p (domain t) \<or> sublist p (url t)"
    by (auto simp: contains_pattern_def)
  then have "sublist (toLowerCase p) (toLowerCase (domain t))
      \<or> sublist (toLowerCase p) (toLowerCase (url t))"
    by (auto dest: sublist_toLowerCase)
  with p show ?thesis
    by (auto simp: definition_matches_def list_ex_iff str_includes_sublist)
qed

lemma find_category_first:
  assumes "i < length cs" and "category_matches t (snd (cs ! i))"
  shows "\<exists>k\<le>i. find_category t cs = Some (fst (cs ! k))
           \<and> category_matches t (snd (cs ! k))
           \<and> (\<forall>l<k. \<not> category_matches t (snd (cs ! l)))"
  using assms
proof (induction cs arbitrary: i)
  case Nil
  then show ?case by simp
next
  case (Cons c cs)
  obtain n ps where c: "c = (n, ps)" by (cases c)
  show ?case
  proof (cases "category_matches t ps")
    case True
    then have "find_category t (c # cs) = Some (fst ((c # cs) ! 0))
        \<and> category_matches t (snd ((c # cs) ! 0))
        \<and> (\<forall>l<0. \<not> category_matches t (snd ((c # cs) ! l)))"
      by (simp add: c)
    then show ?thesis by blast
  next
    case False
    with Cons.prems c obtain i' where i': "i = Suc i'"
      by (cases i) auto
    with Cons.prems have "i' < length cs" "category_matches t (snd (cs ! i'))"
      by auto
    from Cons.IH[OF this] obtain k where k: "k \<le> i'"
      "find_category t cs = Some (fst (cs ! k))"
      "category_matches t (snd (cs ! k))"
      "\<forall>l<k. \<not> category_matches t (snd (cs ! l))"
      by blast
    have "\<forall>l<Suc k. \<not> category_matches t (snd ((c # cs) ! l))"
    proof (intro allI impI)
      fix l assume "l < Suc k"
      then show "\<not> category_matches t (snd ((c # cs) ! l))"
        using False c k(4) by (cases l) auto
    qed
    with k False c i' have "Suc k \<le> i
        \<and> find_category t (c # cs) = Some (fst ((c # cs) ! Suc k))
        \<and> category_matches t (snd ((c # cs) ! Suc k))
        \<and> (\<forall>l<Suc k. \<not> category_matches t (snd ((c # cs) ! l)))"
      by simp
    then show ?thesis by blast
  qed
qed

lemma assign_category_first:
  assumes "i < length cs" and "definition_matches t (cs ! i)"
  shows "\<exists>k\<le>i. assign_category t cs = Some (cs ! k)
           \<and> definition_matches t (cs ! k)
           \<and> (\<forall>l<k. \<not> definition_matches t (cs ! l))"
  using assms
proof (induction cs arbitrary: i)
  case Nil
  then show ?case by simp
next
  case (Cons c cs)
  show ?case
  proof (cases "definition_matches t c")
    case True
    then have "assign_category t (c # cs) = Some ((c # cs) ! 0)
        \<and> definition_matches t ((c # cs) ! 0)
        \<and> (\<forall>l<0. \<not> definition_matches t ((c # cs) ! l))"
      by simp
    then show ?thesis by blast
  next
    case False
    with Cons.prems obtain i' where i': "i = Suc i'"
      by (cases i) auto
    with Cons.prems have "i' < length cs" "definition_matches t (cs ! i')"
      by auto
    from Cons.IH[OF this] obtain k where k: "k \<le> i'"
      "assign_category t cs = Some (cs ! k)"
      "definition_matches t (cs ! k)"
      "\<forall>l<k. \<not> definition_matches t (cs ! l)"
      by blast
    have "\<forall>l<Suc k. \<not> definition_matches t ((c # cs) ! l)"
    proof (intro allI impI)
      fix l assume "l < Suc k"
      then show "\<not> definition_matches t ((c # cs) ! l)"
        using False k(4) by (cases l) auto
    qed
    with k False i' have "Suc k \<le> i
        \<and> assign_category t (c # cs) = Some ((c # cs) ! Suc k)
        \<and> definition_matches t ((c # cs) ! Suc k)
        \<and> (\<forall>l<Suc k. \<not> definition_matches t ((c # cs) ! l))"
      by simp
    then show ?thesis by blast
  qed
qed

lemma distinct_category_names: "distinct (map fst categories)"
  by (simp add: categories_def)

lemma distinct_definition_names: "distinct (map name categoryDefinitions)"
  by (simp add: categoryDefinitions_def)

lemma find_category_earlier:
  assumes "i < j" and "j < length cs" and "distinct (map fst cs)"
    and "category_matches t (snd (cs ! i))"
  shows "(\<exists>k\<le>i. find_category t cs = Some (fst (cs ! k)))
       \<and> find_category t cs \<noteq> Some (fst (cs ! j))
       \<and> ((\<forall>l<i. \<not> category_matches t (snd (cs ! l)))
            \<longrightarrow> find_category t cs = Some (fst (cs ! i)))"
proof -
  have i: "i < length cs" using assms by simp
  from find_category_first[OF i assms(4)] obtain k where k: "k \<le> i"
    "find_category t cs = Some (fst (cs ! k))"
    "category_matches t (snd (cs ! k))"
    by blast
  have "k < j" using k(1) assms(1) by simp
  moreover have "k < length (map fst cs)" and "j < length (map fst cs)"
    using \<open>k < j\<close> assms(2) by simp_all
  ultimately have "map fst cs ! k \<noteq> map fst cs ! j"
    using nth_eq_iff_index_eq[OF assms(3)] by blast
  then have ne: "find_category t cs \<noteq> Some (fst (cs ! j))"
    using k(2) assms(2) \<open>k < j\<close> by simp
  have "find_category t cs = Some (fst (cs ! i))"
    if "\<forall>l<i. \<not> category_matches t (snd (cs ! l))"
  proof -
    have "k = i" using that k(1,3) by (cases "k < i") auto
    then show ?thesis using k(2) by simp
  qed
  with k ne show ?thesis by blast
qed

lemma assign_category_earlier:
  assumes "i < j" and "j < length cs" and "distinct cs"
    and "definition_matches t (cs ! i)"
  shows "(\<exists>k\<le>i. assign_category t cs = Some (cs ! k))
       \<and> assign_category t cs \<noteq> Some (cs ! j)
       \<and> ((\<forall>l<i. \<not> definition_matches t (cs ! l)) \<longrightarrow> assign_category t cs = Some (cs ! i))"
proof -
  have i: "i < length cs" using assms by simp
  from assign_category_first[OF i assms(4)] obtain k where k: "k \<le> i"
    "assign_category t cs = Some (cs ! k)"
    "definition_matches t (cs ! k)"
    by blast
  have "k < j" using k(1) assms(1) by simp
  then have "cs ! k \<noteq> cs ! j"
    using assms(2,3) by (simp add: nth_eq_iff_index_eq)
  then have ne: "assign_category t cs \<noteq> Some (cs ! j)"
    using k(2) by simp
  have "assign_category t cs = Some (cs ! i)"
    if "\<forall>l<i. \<not> definition_matches t (cs ! l)"
  proof -
    have "k = i" using that k(1,3) by (cases "k < i") auto
    then show ?thesis using k(2) by simp
  qed
  with k ne show ?thesis by blast
qed

lemma distinct_categoryDefinitions: "distinct categoryDefinitions"
  using distinct_definition_names by (rule distinct_map[THEN iffD1, THEN conjunct1])

text \<open>
  Claim C1.  In each of the two catalogs, a tab whose domain or URL contains a pattern of
  the category at position \<open>i\<close> and a pattern of the category at a later position \<open>j\<close>
  is classified into a category at a position not after \<open>i\<close>, never into the one at
  \<open>j\<close>; it is classified into the category at \<open>i\<close> itself when no category
  before \<open>i\<close> matches.  The first part is the catalog \<open>categories\<close> of
  \<open>find_tabs_by_category\<close>, the second the catalog \<open>categoryDefinitions\<close> of
  \<open>auto_organize_tabs\<close>.
\<close>

theorem classifier_first_match:
  "(i < j \<and> j < length categories
      \<and> contains_pattern t (snd (categories ! i)) \<and> contains_pattern t (snd (categories ! j))
    \<longrightarrow> (\<exists>k\<le>i. find_category t categories = Some (fst (categories ! k)))
        \<and> find_category t categories \<noteq> Some (fst (categories ! j))
        \<and> ((\<forall>l<i. \<not> category_matches t (snd (categories ! l)))
             \<longrightarrow> find_category t categories = Some (fst (categories ! i))))
   \<and> (i' < j' \<and> j' < length categoryDefinitions
      \<and> contains_pattern t' (patterns (categoryDefinitions ! i'))
      \<and> contains_pattern t' (patterns (categoryDefinitions ! j'))
    \<longrightarrow> (\<exists>k\<le>i'. assign_category t' categoryDefinitions = Some (categoryDefinitions ! k))
        \<and> assign_category t' categoryDefinitions \<noteq> Some (categoryDefinitions ! j')
        \<and> ((\<forall>l<i'. \<not> definition_matches t' (categoryDefinitions ! l))
             \<longrightarrow> assign_category t' categoryDefinitions = Some (categoryDefinitions ! i')))"
proof (rule conjI; rule impI)
  assume a: "i < j \<and> j < length categories
      \<and> contains_pattern t (snd (categories ! i)) \<and> contains_pattern t (snd (categories ! j))"
  then have "category_matches t (snd (categories ! i))"
    by (simp add: category_matches_iff)
  with a show "(\<exists>k\<le>i. find_category t categories = Some (fst (categories ! k)))
        \<and> find_category t categories \<noteq> Some (fst (categories ! j))
        \<and> ((\<forall>l<i. \<not> category_matches t (snd (categories ! l)))
             \<longrightarrow> find_category t categories = Some (fst (categories ! i)))"
    using find_category_earlier[OF _ _ distinct_category_names] by blast
next
  assume a: "i' < j' \<and> j' < length categoryDefinitions
      \<and> contains_pattern t' (patterns (categoryDefinitions ! i'))
      \<and> contains_pattern t' (patterns (categoryDefinitions ! j'))"
  then have "definition_matches t' (categoryDefinitions ! i')"
    by (simp add: contains_definition_matches)
  with a show "(\<exists>k\<le>i'. assign_category t' categoryDefinitions = Some (categoryDefinitions ! k))
        \<and> assign_category t' categoryDefinitions \<noteq> Some (categoryDefinitions ! j')
        \<and> ((\<forall>l<i'. \<not> definition_matches t' (categoryDefinitions ! l))
             \<longrightarrow> assign_category t' categoryDefinitions = Some (categoryDefinitions ! i'))"
    using assign_category_earlier[OF _ _ distinct_categoryDefinitions] by blast
qed

lemma tab_two_analysis_contains: "contains_pattern tab_two_analysis (snd (categories ! 0))"
  "contains_pattern tab_two_analysis (snd (categories ! 6))"
  unfolding category_matches_iff[symmetric] by code_simp+

lemma tab_two_auto_contains: "contains_pattern tab_two_auto (patterns (categoryDefinitions ! 0))"
  "contains_pattern tab_two_auto (patterns (categoryDefinitions ! 3))"
  unfolding category_matches_iff[symmetric] by code_simp+

theorem classifier_first_match_witness:
  "((0::nat) < 6 \<and> 6 < length categories
      \<and> contains_pattern tab_two_analysis (snd (categories ! 0))
      \<and> contains_pattern tab_two_analysis (snd (categories ! 6)))
   \<and> find_category tab_two_analysis categories = Some ''Development''
   \<and> find_category tab_two_analysis categories \<noteq> Some (fst (categories ! 6))
   \<and> ((0::nat) < 3 \<and> 3 < length categoryDefinitions
      \<and> contains_pattern tab_two_auto (patterns (categoryDefinitions ! 0))
      \<and> contains_pattern tab_two_auto (patterns (categoryDefinitions ! 3)))
   \<and> map_option name (assign_category tab_two_auto categoryDefinitions) = Some ''GitHub''
   \<and> assign_category tab_two_auto categoryDefinitions \<noteq> Some (categoryDefinitions ! 3)"
proof -
  have h1: "(0::nat) < 6 \<and> 6 < length categories
      \<and> contains_pattern tab_two_analysis (snd (categories ! 0))
      \<and> contains_pattern tab_two_analysis (snd (categories ! 6))"
    using tab_two_analysis_contains by (simp add: categories_def)
  have h2: "(0::nat) < 3 \<and> 3 < length categoryDefinitions
      \<and> contains_pattern tab_two_auto (patterns (categoryDefinitions ! 0))
      \<and> contains_pattern tab_two_auto (patterns (categoryDefinitions ! 3))"
    using tab_two_auto_contains by (simp add: categoryDefinitions_def)
  note T = classifier_first_match[of 0 6 tab_two_analysis 0 3 tab_two_auto]
  from T[THEN conjunct1, THEN mp, OF h1]
  have c1: "find_category tab_two_analysis categories = Some (fst (categories ! 0))"
    and c2: "find_category tab_two_analysis categories \<noteq> Some (fst (categories ! 6))"
    by auto
  from T[THEN conjunct2, THEN mp, OF h2]
  have c3: "assign_category tab_two_auto categoryDefinitions = Some (categoryDefinitions ! 0)"
    and c4: "assign_category tab_two_auto categoryDefinitions \<noteq> Some (categoryDefinitions ! 3)"
    by auto
  from c1 have "find_category tab_two_analysis categories = Some ''Development''"
    by (simp add: categories_def)
  moreover from c3
  have "map_option name (assign_category tab_two_auto categoryDefinitions) = Some ''GitHub''"
    by (simp add: categoryDefinitions_def)
  ultimately show ?thesis using h1 h2 c2 c4 by blast
qed

section \<open>Case sensitivity of the two classifiers\<close>

lemma definition_matches_iff:
  "definition_matches t c \<longleftrightarrow>
     (\<exists>p \<in> set (patterns c). sublist (toLowerCase p) (toLowerCase (url t))
                           \<or> sublist (toLowerCase p) (toLowerCase (domain t)))"
  by (simp add: definition_matches_def list_ex_iff str_includes_sublist)

text \<open>
  Claim C2.  The classifier of \<open>auto_organize_tabs\<close> lower-cases both sides
  (\<open>definition_matches_iff\<close>), the one of \<open>find_tabs_by_category\<close> compares the
  pattern with the URL as it is.  At the tab with URL
  \<open>https://example.com/?to=GitHub.com\<close> the lower-cased pattern \<open>github.com\<close> of
  \<open>Development\<close> is a substring of the lower-cased URL, \<open>auto_organize_tabs\<close>
  classifies the tab as \<open>GitHub\<close>, and \<open>find_tabs_by_category\<close> finds no category
  and lists the tab under \<open>Other\<close>.
\<close>

theorem find_tabs_by_category_case_sensitive:
  "''github.com'' \<in> set (snd (categories ! 0))
   \<and> sublist (toLowerCase ''github.com'') (toLowerCase (url tab_mixed_case))
   \<and> find_category tab_mixed_case categories = None
   \<and> categorize [tab_mixed_case] = ([], [tab_mixed_case])
   \<and> map_option name (assign_category tab_mixed_case categoryDefinitions) = Some ''GitHub''"
  unfolding str_includes_sublist[symmetric] by code_simp

section \<open>Tabs in groups\<close>

lemma writeCommand_commands:
  "commands (writeCommand c w)
     = commands w @ [\<lparr>command = c, cmd_id = clock w (ticks w), status = ''pending''\<rparr>]"
  by (simp add: writeCommand_def Date_now_def)

text \<open>
  Claim C10, as amended.  The in-groups count of \<open>get_tab_stats\<close> and the selection of
  \<open>ungroup_all_tabs\<close> are the tabs whose group identifier is neither \<open>0\<close> nor the
  sentinel \<open>-1\<close>: the guard \<open>t.groupId && t.groupId !== -1\<close> rejects \<open>0\<close> as well.
  \<open>ungroup_all_tabs\<close> appends one command with the identifiers of all these tabs when
  there is one, and leaves the world as it is when there is none.
\<close>

theorem in_groups_selection:
  "groupedCount (tabs d) = length (filter (\<lambda>t. groupId t \<noteq> 0 \<and> groupId t \<noteq> - 1) (tabs d))
   \<and> (\<exists>pre post. get_tab_stats age d
         = pre @ ''- In groups: ''
             @ show_nat (length (filter (\<lambda>t. groupId t \<noteq> 0 \<and> groupId t \<noteq> - 1) (tabs d)))
             @ post)
   \<and> groupedTabs (tabs d) = filter (\<lambda>t. groupId t \<noteq> 0 \<and> groupId t \<noteq> - 1) (tabs d)
   \<and> (groupedTabs (tabs d) = [] \<longrightarrow> snd (ungroup_all_tabs d w) = w)
   \<and> (groupedTabs (tabs d) \<noteq> [] \<longrightarrow>
        (\<exists>desc. commands (snd (ungroup_all_tabs d w))
           = commands w @ [\<lparr>command = Ungroup_tabs (map tab_id (groupedTabs (tabs d))) desc,
                             cmd_id = clock w (ticks w), status = ''pending''\<rparr>]))"
proof -
  have sel: "filter in_group (tabs d)
      = filter (\<lambda>t. groupId t \<noteq> 0 \<and> groupId t \<noteq> - 1) (tabs d)"
    by (simp add: in_group_def[abs_def])
  have count: "groupedCount (tabs d)
      = length (filter (\<lambda>t. groupId t \<noteq> 0 \<and> groupId t \<noteq> - 1) (tabs d))"
    by (simp add: groupedCount_def sel)
  have "get_tab_stats age d
      = (''Tab Statistics (data from '' @ age @ ''):'' @ nl
          @ ''- Total tabs: '' @ show_int (tabCount d) @ nl
          @ ''- Windows: '' @ show_int (windowCount d) @ nl
          @ ''- Unique domains: '' @ show_nat (length (uniq (map domain (tabs d)))) @ nl
          @ ''- Pinned tabs: '' @ show_nat (length (filter pinned (tabs d))) @ nl
          @ ''- Playing audio: '' @ show_nat (length (filter audible (tabs d))) @ nl)
        @ ''- In groups: '' @ show_nat (groupedCount (tabs d))
        @ (nl @ ''- Tab groups: '' @ show_nat (length (groups d)))"
    unfolding get_tab_stats_def by simp
  then have stats: "\<exists>pre post. get_tab_stats age d
         = pre @ ''- In groups: ''
             @ show_nat (length (filter (\<lambda>t. groupId t \<noteq> 0 \<and> groupId t \<noteq> - 1) (tabs d)))
             @ post"
    unfolding count by blast
  have none: "snd (ungroup_all_tabs d w) = w" if "groupedTabs (tabs d) = []"
    using that by (simp add: ungroup_all_tabs_def)
  have some: "\<exists>desc. commands (snd (ungroup_all_tabs d w))
           = commands w @ [\<lparr>command = Ungroup_tabs (map tab_id (groupedTabs (tabs d))) desc,
                             cmd_id = clock w (ticks w), status = ''pending''\<rparr>]"
    if "groupedTabs (tabs d) \<noteq> []"
    using that by (simp add: ungroup_all_tabs_def Let_def writeCommand_commands)
  from count stats sel none some show ?thesis
    by (simp add: groupedTabs_def)
qed

text \<open>The theorem at a snapshot without and at a snapshot with grouped tabs.\<close>

theorem in_groups_selection_witness:
  "groupedTabs (tabs (snapshot_of [tab_group_zero])) = []
   \<and> snd (ungroup_all_tabs (snapshot_of [tab_group_zero]) (world_at None)) = world_at None
   \<and> groupedTabs (tabs (snapshot_of tabs_some_grouped)) \<noteq> []
   \<and> groupedCount (tabs (snapshot_of tabs_some_grouped)) = 2
   \<and> (\<exists>desc. commands (snd (ungroup_all_tabs (snapshot_of tabs_some_grouped) (world_at None)))
         = [\<lparr>command = Ungroup_tabs [3, 4] desc, cmd_id = 1000, status = ''pending''\<rparr>])"
proof -
  have e: "groupedTabs (tabs (snapshot_of [tab_group_zero])) = []"
    by (simp add: snapshot_of_def tab_group_zero_def tab_at_def groupedTabs_def in_group_def)
  have g: "groupedTabs (tabs (snapshot_of tabs_some_grouped))
      = [(tab_at 3 ''https://c.example/'' ''c.example'')\<lparr>groupId := 5\<rparr>,
         (tab_at 4 ''https://d.example/'' ''d.example'')\<lparr>groupId := 7\<rparr>]"
    by (simp add: snapshot_of_def tabs_some_grouped_def tab_at_def groupedTabs_def in_group_def)
  then have ne: "groupedTabs (tabs (snapshot_of tabs_some_grouped)) \<noteq> []"
    by simp
  note T1 = in_groups_selection[of "snapshot_of [tab_group_zero]" "[]" "world_at None"]
  note T2 = in_groups_selection[of "snapshot_of tabs_some_grouped" "[]" "world_at None"]
  from T1 e have a: "snd (ungroup_all_tabs (snapshot_of [tab_group_zero]) (world_at None))
      = world_at None"
    by blast
  from T2 have "groupedCount (tabs (snapshot_of tabs_some_grouped))
      = length (groupedTabs (tabs (snapshot_of tabs_some_grouped)))"
    by simp
  then have b: "groupedCount (tabs (snapshot_of tabs_some_grouped)) = 2"
    by (simp add: g)
  from T2 ne have "\<exists>desc. commands (snd (ungroup_all_tabs (snapshot_of tabs_some_grouped)
        (world_at None)))
      = commands (world_at None)
         @ [\<lparr>command = Ungroup_tabs (map tab_id (groupedTabs (tabs (snapshot_of tabs_some_grouped))))
                          desc,
              cmd_id = clock (world_at None) (ticks (world_at None)), status = ''pending''\<rparr>]"
    by blast
  then have c: "\<exists>desc. commands (snd (ungroup_all_tabs (snapshot_of tabs_some_grouped)
        (world_at None)))
      = [\<lparr>command = Ungroup_tabs [3, 4] desc, cmd_id = 1000, status = ''pending''\<rparr>]"
    by (simp add: g world_at_def tab_at_def)
  from e a ne b c show ?thesis by blast
qed

text \<open>
  Claim C10 as stated fails at a tab with group identifier \<open>0\<close>: it is different from
  \<open>-1\<close>, and it is neither counted nor selected.
\<close>

theorem group_zero_not_counted:
  "groupId tab_group_zero \<noteq> - 1
   \<and> groupedCount (tabs (snapshot_of [tab_group_zero])) = 0
   \<and> ungroup_all_tabs (snapshot_of [tab_group_zero]) (world_at None)
       = (''No tabs are currently in groups.'', world_at None)"
  by (simp add: tab_group_zero_def tab_at_def snapshot_of_def groupedCount_def in_group_def
      ungroup_all_tabs_def groupedTabs_def)

section \<open>Duplicate detection\<close>

lemma browser_url_not_inherited: "browser_url u \<Longrightarrow> u \<notin> set object_prototype_keys"
  by (auto simp: browser_url_def object_prototype_keys_def)


lemma urlMap_truthy_Cons:
  "urlMap_truthy ((k, v) # m) u \<longleftrightarrow> u = k \<or> urlMap_truthy m u"
  by (auto simp: urlMap_truthy_def)

lemma duplicateIds_positions_from:
  assumes "\<And>u. urlMap_truthy m u \<longleftrightarrow> u \<in> S"
  shows "duplicateIds m ts
     = map (\<lambda>i. tab_id (ts ! i))
         (filter (\<lambda>i. url (ts ! i) \<in> S \<or> (\<exists>j<i. url (ts ! j) = url (ts ! i)))
                 [0..<length ts])"
  using assms
proof (induction ts arbitrary: m S)
  case Nil
  show ?case by simp
next
  case (Cons t ts)
  have shift: "[0..<length (t # ts)] = 0 # map Suc [0..<length ts]"
    by (simp add: upt_conv_Cons map_Suc_upt del: upt_Suc)
  show ?case
  proof (cases "url t \<in> S")
    case True
    have "(url (ts ! i) \<in> S \<or> (\<exists>j<Suc i. url ((t # ts) ! j) = url (ts ! i)))
        \<longleftrightarrow> (url (ts ! i) \<in> S \<or> (\<exists>j<i. url (ts ! j) = url (ts ! i)))" for i
      using True by (auto simp: less_Suc_eq_0_disj)
    with True Cons.prems show ?thesis
      unfolding shift by (simp add: Cons.IH[OF Cons.prems] filter_map o_def)
  next
    case False
    have step: "\<And>u. urlMap_truthy ((url t, t) # m) u \<longleftrightarrow> u \<in> insert (url t) S"
      using Cons.prems by (auto simp: urlMap_truthy_Cons)
    have "(url (ts ! i) \<in> S \<or> (\<exists>j<Suc i. url ((t # ts) ! j) = url (ts ! i)))
        \<longleftrightarrow> (url (ts ! i) \<in> insert (url t) S \<or> (\<exists>j<i. url (ts ! j) = url (ts ! i)))" for i
      by (auto simp: less_Suc_eq_0_disj)
    with False Cons.prems show ?thesis
      unfolding shift by (simp add: Cons.IH[OF step] filter_map o_def)
  qed
qed

lemma duplicateIds_length_from:
  assumes "\<And>u. urlMap_truthy m u \<longleftrightarrow> u \<in> S"
  shows "length (duplicateIds m ts) + card (url ` set ts - S) = length ts"
  using assms
proof (induction ts arbitrary: m S)
  case Nil
  show ?case by simp
next
  case (Cons t ts)
  show ?case
  proof (cases "url t \<in> S")
    case True
    then have "url ` set (t # ts) - S = url ` set ts - S"
      by auto
    with True Cons.prems Cons.IH[OF Cons.prems] show ?thesis by simp
  next
    case False
    have step: "\<And>u. urlMap_truthy ((url t, t) # m) u \<longleftrightarrow> u \<in> insert (url t) S"
      using Cons.prems by (auto simp: urlMap_truthy_Cons)
    have "url ` set (t # ts) - S = insert (url t) (url ` set ts - insert (url t) S)"
      using False by auto
    moreover have "url t \<notin> url ` set ts - insert (url t) S" by simp
    moreover have "finite (url ` set ts - insert (url t) S)" by simp
    ultimately have "card (url ` set (t # ts) - S) = Suc (card (url ` set ts - insert (url t) S))"
      by simp
    with False Cons.prems Cons.IH[OF step] show ?thesis by simp
  qed
qed

lemma urlMap_truthy_empty: "urlMap_truthy [] u \<longleftrightarrow> u \<in> set object_prototype_keys"
  by (simp add: urlMap_truthy_def)


text \<open>
  Claim C3.  In a snapshot whose tab URLs are not names of members of
  \<open>Object.prototype\<close> (every URL that a browser reports is such a URL, by
  \<open>browser_url_not_inherited\<close>), \<open>close_duplicate_tabs\<close> marks exactly the tabs
  that have an earlier tab with the same URL, in snapshot order, so the first tab of each
  URL is kept.  The number of marked tabs is the number of tabs minus the number of
  distinct URLs.  When no URL occurs twice the world is unchanged; otherwise exactly one
  command is appended, a close command with the marked identifiers.
\<close>

theorem close_duplicate_tabs_keeps_first:
  assumes "\<forall>t \<in> set (tabs d). url t \<notin> set object_prototype_keys"
  shows "duplicateIds [] (tabs d)
           = map (\<lambda>i. tab_id (tabs d ! i))
               (filter (\<lambda>i. \<exists>j<i. url (tabs d ! j) = url (tabs d ! i)) [0..<length (tabs d)])
       \<and> length (duplicateIds [] (tabs d)) = length (tabs d) - card (url ` set (tabs d))
       \<and> (distinct (map url (tabs d))
            \<longrightarrow> close_duplicate_tabs d w = (''No duplicate tabs found!'', w))
       \<and> (\<not> distinct (map url (tabs d))
            \<longrightarrow> (\<exists>desc. commands (snd (close_duplicate_tabs d w))
                   = commands w @ [\<lparr>command = Close_tabs (duplicateIds [] (tabs d)) desc,
                                     cmd_id = clock w (ticks w), status = ''pending''\<rparr>]))"
proof -
  let ?ts = "tabs d"
  let ?P = "set object_prototype_keys"
  have pos: "duplicateIds [] ?ts
      = map (\<lambda>i. tab_id (?ts ! i))
          (filter (\<lambda>i. url (?ts ! i) \<in> ?P \<or> (\<exists>j<i. url (?ts ! j) = url (?ts ! i)))
                  [0..<length ?ts])"
    by (rule duplicateIds_positions_from) (rule urlMap_truthy_empty)
  have "filter (\<lambda>i. url (?ts ! i) \<in> ?P \<or> (\<exists>j<i. url (?ts ! j) = url (?ts ! i)))
            [0..<length ?ts]
      = filter (\<lambda>i. \<exists>j<i. url (?ts ! j) = url (?ts ! i)) [0..<length ?ts]"
    using assms by (intro filter_cong) auto
  with pos have a: "duplicateIds [] ?ts
      = map (\<lambda>i. tab_id (?ts ! i))
          (filter (\<lambda>i. \<exists>j<i. url (?ts ! j) = url (?ts ! i)) [0..<length ?ts])"
    by simp
  have "url ` set ?ts - ?P = url ` set ?ts"
    using assms by auto
  with duplicateIds_length_from[of "[]" ?P ?ts, OF urlMap_truthy_empty]
  have len: "length (duplicateIds [] ?ts) + card (url ` set ?ts) = length ?ts"
    by simp
  then have b: "length (duplicateIds [] ?ts) = length ?ts - card (url ` set ?ts)"
    by simp
  have card: "card (url ` set ?ts) = length ?ts \<longleftrightarrow> distinct (map url ?ts)"
    using card_distinct[of "map url ?ts"] distinct_card[of "map url ?ts"] by auto
  have c: "close_duplicate_tabs d w = (''No duplicate tabs found!'', w)"
    if "distinct (map url ?ts)"
  proof -
    from that card len have "duplicateIds [] ?ts = []" by simp
    then show ?thesis by (simp add: close_duplicate_tabs_def)
  qed
  have e: "\<exists>desc. commands (snd (close_duplicate_tabs d w))
                   = commands w @ [\<lparr>command = Close_tabs (duplicateIds [] ?ts) desc,
                                     cmd_id = clock w (ticks w), status = ''pending''\<rparr>]"
    if "\<not> distinct (map url ?ts)"
  proof -
    from that card len have "duplicateIds [] ?ts \<noteq> []" by auto
    then show ?thesis
      by (simp add: close_duplicate_tabs_def Let_def writeCommand_commands)
  qed
  from a b c e show ?thesis by blast
qed

lemma tabs_with_duplicates_urls:
  "\<forall>t \<in> set (tabs (snapshot_of tabs_with_duplicates)). url t \<notin> set object_prototype_keys"
  "\<not> distinct (map url (tabs (snapshot_of tabs_with_duplicates)))"
  "duplicateIds [] (tabs (snapshot_of tabs_with_duplicates)) = [3, 4]"
  by code_simp+

lemma tabs_some_grouped_urls:
  "\<forall>t \<in> set (tabs (snapshot_of tabs_some_grouped)). url t \<notin> set object_prototype_keys"
  "distinct (map url (tabs (snapshot_of tabs_some_grouped)))"
  by code_simp+

text \<open>The theorem at a snapshot with and at a snapshot without duplicated URLs.\<close>

theorem close_duplicate_tabs_keeps_first_witness:
  "list_all (\<lambda>t. url t \<notin> set object_prototype_keys) (tabs (snapshot_of tabs_with_duplicates))
   \<and> \<not> distinct (map url (tabs (snapshot_of tabs_with_duplicates)))
   \<and> (\<exists>desc. commands (snd (close_duplicate_tabs (snapshot_of tabs_with_duplicates)
                              (world_at None)))
         = [\<lparr>command = Close_tabs [3, 4] desc, cmd_id = 1000, status = ''pending''\<rparr>])
   \<and> length [3, 4 :: int] = length (tabs (snapshot_of tabs_with_duplicates))
         - card (url ` set (tabs (snapshot_of tabs_with_duplicates)))
   \<and> list_all (\<lambda>t. url t \<notin> set object_prototype_keys) (tabs (snapshot_of tabs_some_grouped))
   \<and> distinct (map url (tabs (snapshot_of tabs_some_grouped)))
   \<and> close_duplicate_tabs (snapshot_of tabs_some_grouped) (world_at None)
        = (''No duplicate tabs found!'', world_at None)"
proof -
  note T1 = close_duplicate_tabs_keeps_first[OF tabs_with_duplicates_urls(1), of "world_at None"]
  note T2 = close_duplicate_tabs_keeps_first[OF tabs_some_grouped_urls(1), of "world_at None"]
  from T1 tabs_with_duplicates_urls(2)
  have "\<exists>desc. commands (snd (close_duplicate_tabs (snapshot_of tabs_with_duplicates)
                              (world_at None)))
         = commands (world_at None)
            @ [\<lparr>command = Close_tabs (duplicateIds [] (tabs (snapshot_of tabs_with_duplicates)))
                             desc,
                 cmd_id = clock (world_at None) (ticks (world_at None)), status = ''pending''\<rparr>]"
    by blast
  then have a: "\<exists>desc. commands (snd (close_duplicate_tabs (snapshot_of tabs_with_duplicates)
                              (world_at None)))
         = [\<lparr>command = Close_tabs [3, 4] desc, cmd_id = 1000, status = ''pending''\<rparr>]"
    by (simp add: tabs_with_duplicates_urls(3) world_at_def)
  have b: "length [3, 4 :: int] = length (tabs (snapshot_of tabs_with_duplicates))
         - card (url ` set (tabs (snapshot_of tabs_with_duplicates)))"
    using T1[THEN conjunct2, THEN conjunct1] unfolding tabs_with_duplicates_urls(3) .
  from T2 tabs_some_grouped_urls(2)
  have c: "close_duplicate_tabs (snapshot_of tabs_some_grouped) (world_at None)
        = (''No duplicate tabs found!'', world_at None)"
    by blast
  have l1: "list_all (\<lambda>t. url t \<notin> set object_prototype_keys)
      (tabs (snapshot_of tabs_with_duplicates))"
    using tabs_with_duplicates_urls(1) unfolding list_all_iff .
  have l2: "list_all (\<lambda>t. url t \<notin> set object_prototype_keys)
      (tabs (snapshot_of tabs_some_grouped))"
    using tabs_some_grouped_urls(1) unfolding list_all_iff .
  from l1 tabs_with_duplicates_urls(2) a b l2 tabs_some_grouped_urls(2) c show ?thesis
    by (intro conjI)
qed

section \<open>Shuffling\<close>

lemma swap_length: "length (swap i j xs) = length xs"
  by (simp add: swap_def)

lemma swap_mset:
  assumes "i < length xs" and "j < length xs"
  shows "mset (swap i j xs) = mset xs"
  unfolding swap_def using mset_swap[OF assms(2,1)] by simp

lemma fisher_yates_length: "length (fisher_yates r i xs) = length xs"
  by (induction r i xs rule: fisher_yates.induct) (simp_all add: swap_length)

lemma fisher_yates_mset:
  "\<forall>k. r k \<le> k \<Longrightarrow> i < length xs \<Longrightarrow> mset (fisher_yates r i xs) = mset xs"
proof (induction r i xs rule: fisher_yates.induct)
  case (1 r xs)
  show ?case by simp
next
  case (2 r i xs)
  have "r (Suc i) \<le> Suc i" using "2.prems"(1) by simp
  with "2.prems"(2) have j: "r (Suc i) < length xs" by simp
  have "mset (fisher_yates r i (swap (Suc i) (r (Suc i)) xs))
      = mset (swap (Suc i) (r (Suc i)) xs)"
    using "2.prems" by (intro "2.IH") (simp_all add: swap_length)
  also have "\<dots> = mset xs"
    using "2.prems"(2) j by (rule swap_mset)
  finally show ?case by simp
qed

lemma moves_of_index: "map move_index (moves_of xs) = [0..<length xs]"
proof -
  have "map move_index (moves_of xs) = map fst (enumerate 0 xs)"
    by (simp add: moves_of_def split_def o_def)
  then show ?thesis by simp
qed

lemma map_enumerate_snd: "map (\<lambda>p. f (snd p)) (enumerate n xs) = map f xs"
  by (induction xs arbitrary: n) simp_all

lemma moves_of_tabs:
  "map (\<lambda>m. (move_tabId m, move_windowId m)) (moves_of xs)
     = map (\<lambda>t. (tab_id t, windowId t)) xs"
  using map_enumerate_snd[of "\<lambda>t. (tab_id t, windowId t)" 0 xs]
  by (simp add: moves_of_def split_def o_def)

lemma shufflableTabs_not_skipped: "shufflableTabs ts = filter (\<lambda>t. \<not> skipped t) ts"
  by (simp add: shufflableTabs_def skipped_def)

text \<open>
  Claim C8.  Let \<open>N\<close> be the number of tabs that are neither pinned nor on an internal
  scheme.  Whatever values in \<open>[0, i]\<close> the random draws of the loop return (the range
  of \<open>Math.floor(Math.random() * (i + 1))\<close>), for \<open>N \<ge> 2\<close> \<open>shuffle_tabs\<close> appends
  exactly one command, whose \<open>N\<close> moves have the target indices \<open>0, \<dots>, N - 1\<close> in
  this order (so pairwise distinct and below \<open>N\<close>) and carry the identifier and window
  identifier of the eligible tabs, each tab once.  For \<open>N < 2\<close> it answers that there are
  not enough tabs and leaves the world unchanged.
\<close>

theorem shuffle_tabs_moves:
  assumes "\<forall>i. random_floor w i \<le> i"
  shows "(length (filter (\<lambda>t. \<not> skipped t) (tabs d)) < 2
            \<longrightarrow> shuffle_tabs d w = (''Not enough tabs to shuffle.'', w))
       \<and> (2 \<le> length (filter (\<lambda>t. \<not> skipped t) (tabs d))
            \<longrightarrow> (\<exists>moves desc.
                   commands (snd (shuffle_tabs d w))
                     = commands w @ [\<lparr>command = Shuffle_tabs moves desc,
                                       cmd_id = clock w (ticks w), status = ''pending''\<rparr>]
                   \<and> length moves = length (filter (\<lambda>t. \<not> skipped t) (tabs d))
                   \<and> map move_index moves
                       = [0..<length (filter (\<lambda>t. \<not> skipped t) (tabs d))]
                   \<and> distinct (map move_index moves)
                   \<and> (\<forall>m \<in> set moves.
                         move_index m < length (filter (\<lambda>t. \<not> skipped t) (tabs d)))
                   \<and> mset (map (\<lambda>m. (move_tabId m, move_windowId m)) moves)
                       = mset (map (\<lambda>t. (tab_id t, windowId t))
                                   (filter (\<lambda>t. \<not> skipped t) (tabs d)))))"
proof -
  let ?sel = "filter (\<lambda>t. \<not> skipped t) (tabs d)"
  let ?sh = "fisher_yates (random_floor w) (length ?sel - 1) ?sel"
  have sel: "shufflableTabs (tabs d) = ?sel"
    by (rule shufflableTabs_not_skipped)
  have few: "shuffle_tabs d w = (''Not enough tabs to shuffle.'', w)" if "length ?sel < 2"
    using that by (simp add: shuffle_tabs_def sel)
  have many: "\<exists>moves desc.
                   commands (snd (shuffle_tabs d w))
                     = commands w @ [\<lparr>command = Shuffle_tabs moves desc,
                                       cmd_id = clock w (ticks w), status = ''pending''\<rparr>]
                   \<and> length moves = length ?sel
                   \<and> map move_index moves = [0..<length ?sel]
                   \<and> distinct (map move_index moves)
                   \<and> (\<forall>m \<in> set moves. move_index m < length ?sel)
                   \<and> mset (map (\<lambda>m. (move_tabId m, move_windowId m)) moves)
                       = mset (map (\<lambda>t. (tab_id t, windowId t)) ?sel)"
    if n: "2 \<le> length ?sel"
  proof -
    have len: "length ?sh = length ?sel"
      by (rule fisher_yates_length)
    have perm: "mset ?sh = mset ?sel"
      using assms n by (intro fisher_yates_mset) simp_all
    have cmd: "commands (snd (shuffle_tabs d w))
        = commands w @ [\<lparr>command = Shuffle_tabs (moves_of ?sh)
                                       (''Shuffle '' @ show_nat (length ?sh) @ '' tabs randomly''),
                          cmd_id = clock w (ticks w), status = ''pending''\<rparr>]"
      using n by (simp add: shuffle_tabs_def sel Let_def writeCommand_commands)
    have idx: "map move_index (moves_of ?sh) = [0..<length ?sel]"
      by (simp add: moves_of_index fisher_yates_length)
    have l: "length (moves_of ?sh) = length ?sel"
      using arg_cong[OF idx, of length] by simp
    have d: "distinct (map move_index (moves_of ?sh))"
      unfolding idx by simp
    have r: "\<forall>m \<in> set (moves_of ?sh). move_index m < length ?sel"
    proof
      fix m assume "m \<in> set (moves_of ?sh)"
      then have "move_index m \<in> set (map move_index (moves_of ?sh))" by simp
      then show "move_index m < length ?sel" unfolding idx by simp
    qed
    have p: "mset (map (\<lambda>m. (move_tabId m, move_windowId m)) (moves_of ?sh))
        = mset (map (\<lambda>t. (tab_id t, windowId t)) ?sel)"
      unfolding moves_of_tabs using perm by (metis mset_map)
    from cmd l idx d r p show ?thesis by blast
  qed
  from few many show ?thesis by blast
qed


lemma world_at_random: "\<forall>i. random_floor (world_at f) i \<le> i"
  by (simp add: world_at_def)

lemma tabs_to_shuffle_eligible:
  "filter (\<lambda>t. \<not> skipped t) (tabs (snapshot_of tabs_to_shuffle))
     = [tab_at 1 ''https://a.example/'' ''a.example'',
        (tab_at 3 ''https://c.example/'' ''c.example'')\<lparr>windowId := 2\<rparr>,
        tab_at 5 ''https://d.example/'' ''d.example'']"
  by code_simp

lemma tab_group_zero_eligible:
  "length (filter (\<lambda>t. \<not> skipped t) (tabs (snapshot_of [tab_group_zero]))) = 1"
  by code_simp

text \<open>The theorem at a snapshot with three eligible tabs and at one with a single tab.\<close>

theorem shuffle_tabs_moves_witness:
  "(\<forall>i. random_floor (world_at None) i \<le> i)
   \<and> 2 \<le> length (filter (\<lambda>t. \<not> skipped t) (tabs (snapshot_of tabs_to_shuffle)))
   \<and> (\<exists>moves desc.
         commands (snd (shuffle_tabs (snapshot_of tabs_to_shuffle) (world_at None)))
           = [\<lparr>command = Shuffle_tabs moves desc, cmd_id = 1000, status = ''pending''\<rparr>]
         \<and> length moves = 3
         \<and> map move_index moves = [0, 1, 2]
         \<and> mset (map (\<lambda>m. (move_tabId m, move_windowId m)) moves)
             = {#(1, 1), (3, 2), (5, 1)#})
   \<and> length (filter (\<lambda>t. \<not> skipped t) (tabs (snapshot_of [tab_group_zero]))) < 2
   \<and> shuffle_tabs (snapshot_of [tab_group_zero]) (world_at None)
        = (''Not enough tabs to shuffle.'', world_at None)"
proof -
  note T1 = shuffle_tabs_moves[OF world_at_random, of "snapshot_of tabs_to_shuffle" None]
  note T2 = shuffle_tabs_moves[OF world_at_random, of "snapshot_of [tab_group_zero]" None]
  have n: "2 \<le> length (filter (\<lambda>t. \<not> skipped t) (tabs (snapshot_of tabs_to_shuffle)))"
    by (simp add: tabs_to_shuffle_eligible)
  from T1[THEN conjunct2, THEN mp, OF n] obtain moves desc where
    c: "commands (snd (shuffle_tabs (snapshot_of tabs_to_shuffle) (world_at None)))
          = commands (world_at None)
             @ [\<lparr>command = Shuffle_tabs moves desc,
                  cmd_id = clock (world_at None) (ticks (world_at None)), status = ''pending''\<rparr>]"
    and l: "length moves
          = length (filter (\<lambda>t. \<not> skipped t) (tabs (snapshot_of tabs_to_shuffle)))"
    and i: "map move_index moves
          = [0..<length (filter (\<lambda>t. \<not> skipped t) (tabs (snapshot_of tabs_to_shuffle)))]"
    and p: "mset (map (\<lambda>m. (move_tabId m, move_windowId m)) moves)
          = mset (map (\<lambda>t. (tab_id t, windowId t))
                      (filter (\<lambda>t. \<not> skipped t) (tabs (snapshot_of tabs_to_shuffle))))"
    by blast
  from c have c': "commands (snd (shuffle_tabs (snapshot_of tabs_to_shuffle) (world_at None)))
          = [\<lparr>command = Shuffle_tabs moves desc, cmd_id = 1000, status = ''pending''\<rparr>]"
    by (simp add: world_at_def)
  from l have l': "length moves = 3"
    unfolding tabs_to_shuffle_eligible by simp
  have "[0..<length (filter (\<lambda>t. \<not> skipped t) (tabs (snapshot_of tabs_to_shuffle)))]
      = [0, 1, 2]"
    unfolding tabs_to_shuffle_eligible by code_simp
  with i have i': "map move_index moves = [0, 1, 2]"
    by simp
  from p have p': "mset (map (\<lambda>m. (move_tabId m, move_windowId m)) moves)
          = {#(1, 1), (3, 2), (5, 1)#}"
    unfolding tabs_to_shuffle_eligible by (simp add: tab_at_def)
  from c' l' i' p' have a: "\<exists>moves desc.
         commands (snd (shuffle_tabs (snapshot_of tabs_to_shuffle) (world_at None)))
           = [\<lparr>command = Shuffle_tabs moves desc, cmd_id = 1000, status = ''pending''\<rparr>]
         \<and> length moves = 3
         \<and> map move_index moves = [0, 1, 2]
         \<and> mset (map (\<lambda>m. (move_tabId m, move_windowId m)) moves)
             = {#(1, 1), (3, 2), (5, 1)#}"
    by (intro exI[of _ moves] exI[of _ desc] conjI)
  have m: "length (filter (\<lambda>t. \<not> skipped t) (tabs (snapshot_of [tab_group_zero]))) < 2"
    by (simp add: tab_group_zero_eligible)
  from T2[THEN conjunct1, THEN mp, OF m]
  have b: "shuffle_tabs (snapshot_of [tab_group_zero]) (world_at None)
        = (''Not enough tabs to shuffle.'', world_at None)" .
  from world_at_random n a m b show ?thesis by blast
qed

section \<open>Automatic organisation\<close>

lemma uniq_snoc: "uniq (xs @ [x]) = (if x \<in> set (uniq xs) then uniq xs else uniq xs @ [x])"
  by (simp add: uniq_def)

lemma set_uniq: "set (uniq xs) = set xs"
  by (induction xs rule: rev_induct) (auto simp: uniq_snoc, simp add: uniq_def)

lemma distinct_uniq: "distinct (uniq xs)"
  by (induction xs rule: rev_induct) (auto simp: uniq_snoc, simp add: uniq_def)

lemma add_to_category_new:
  "n \<notin> fst ` set bs \<Longrightarrow> add_to_category n c t bs = bs @ [(n, c, [t])]"
  by (induction bs) auto

lemma add_to_category_old:
  assumes "n \<in> set ns" and "distinct ns"
  shows "add_to_category n c t (map (\<lambda>m. (m, g m, f m)) ns)
       = map (\<lambda>m. (m, g m, if m = n then f m @ [t] else f m)) ns"
  using assms by (induction ns) (auto simp: add_to_category_new image_iff)

lemma assign_category_member: "assign_category t cs = Some c \<Longrightarrow> c \<in> set cs"
  by (induction cs) (auto split: if_splits)

lemma find_by_name:
  assumes "distinct (map name cs)" and "c \<in> set cs"
  shows "find (\<lambda>c'. name c' = name c) cs = Some c"
  using assms by (induction cs) (auto simp: image_iff)

lemma Other_not_in_catalog: "''Other'' \<notin> name ` set categoryDefinitions"
  by (simp add: categoryDefinitions_def)

lemma bucket_color:
  "(case assign_category t categoryDefinitions of Some c \<Rightarrow> color c | None \<Rightarrow> ''grey'')
     = color_of (category_of t)"
proof (cases "assign_category t categoryDefinitions")
  case None
  have "find (\<lambda>c. name c = ''Other'') categoryDefinitions = None"
    using Other_not_in_catalog by (force simp: find_None_iff)
  with None show ?thesis by (simp add: color_of_def category_of_def)
next
  case (Some c)
  then have "find (\<lambda>c'. name c' = name c) categoryDefinitions = Some c"
    by (intro find_by_name distinct_definition_names assign_category_member)
  with Some show ?thesis by (simp add: color_of_def category_of_def)
qed

lemma assign_tab_category_of:
  "assign_tab bs t
     = (if skipped t then bs else add_to_category (category_of t) (color_of (category_of t)) t bs)"
  using bucket_color[of t]
  by (simp add: assign_tab_def category_of_def split: option.splits)

lemma buckets_characterisation:
  "foldl assign_tab [] tp
     = map (\<lambda>n. (n, color_of n,
                   filter (\<lambda>t. category_of t = n) (filter (\<lambda>t. \<not> skipped t) tp)))
           (uniq (map category_of (filter (\<lambda>t. \<not> skipped t) tp)))"
proof (induction tp rule: rev_induct)
  case Nil
  show ?case by (simp add: uniq_def)
next
  case (snoc t tp)
  let ?ps = "filter (\<lambda>t. \<not> skipped t) tp"
  let ?ns = "uniq (map category_of ?ps)"
  show ?case
  proof (cases "skipped t")
    case True
    with snoc.IH show ?thesis by (simp add: assign_tab_category_of)
  next
    case False
    let ?n = "category_of t"
    show ?thesis
    proof (cases "?n \<in> set ?ns")
      case True
      have "add_to_category ?n (color_of ?n) t
              (map (\<lambda>m. (m, color_of m, filter (\<lambda>t. category_of t = m) ?ps)) ?ns)
          = map (\<lambda>m. (m, color_of m,
                       if m = ?n then filter (\<lambda>t. category_of t = m) ?ps @ [t]
                       else filter (\<lambda>t. category_of t = m) ?ps)) ?ns"
        using True distinct_uniq by (rule add_to_category_old)
      also have "\<dots> = map (\<lambda>m. (m, color_of m, filter (\<lambda>t. category_of t = m) (?ps @ [t]))) ?ns"
        by (intro map_cong) auto
      finally show ?thesis
        using False True snoc.IH by (simp add: assign_tab_category_of uniq_snoc)
    next
      case notin: False
      have none: "filter (\<lambda>s. category_of s = ?n) ?ps = []"
      proof (rule ccontr)
        assume "filter (\<lambda>s. category_of s = ?n) ?ps \<noteq> []"
        then obtain s where "s \<in> set ?ps" and "category_of s = ?n"
          unfolding filter_empty_conv by blast
        then have "?n \<in> category_of ` set ?ps"
          by (metis imageI)
        with notin show False
          by (simp add: set_uniq)
      qed
      have "?n \<notin> fst ` set (map (\<lambda>m. (m, color_of m, filter (\<lambda>t. category_of t = m) ?ps)) ?ns)"
        using notin by (auto simp: image_iff)
      then have "add_to_category ?n (color_of ?n) t
              (map (\<lambda>m. (m, color_of m, filter (\<lambda>t. category_of t = m) ?ps)) ?ns)
          = map (\<lambda>m. (m, color_of m, filter (\<lambda>t. category_of t = m) ?ps)) ?ns
              @ [(?n, color_of ?n, [t])]"
        by (rule add_to_category_new)
      moreover have "map (\<lambda>m. (m, color_of m, filter (\<lambda>t. category_of t = m) ?ps)) ?ns
          = map (\<lambda>m. (m, color_of m, filter (\<lambda>t. category_of t = m) (?ps @ [t]))) ?ns"
        using notin by (intro map_cong) auto
      ultimately show ?thesis
        using False notin snoc.IH none by (simp add: assign_tab_category_of uniq_snoc)
    qed
  qed
qed


lemma queued_from_append:
  "queued_from w k (cs @ ds) = queued_from w k cs @ queued_from w (k + length cs) ds"
  by (induction cs arbitrary: k) simp_all

lemma queued_from_length: "length (queued_from w k cs) = length cs"
  by (induction cs arbitrary: k) simp_all

lemma queued_from_command: "map command (queued_from w k cs) = cs"
  by (induction cs arbitrary: k) simp_all

lemma queued_from_status: "q \<in> set (queued_from w k cs) \<Longrightarrow> status q = ''pending''"
  by (induction cs arbitrary: k) auto

lemma queued_from_ids: "map cmd_id (queued_from w k cs) = map (clock w) [k..<k + length cs]"
proof (induction cs arbitrary: k)
  case Nil
  show ?case by simp
next
  case (Cons c cs)
  have "[k..<k + length (c # cs)] = k # [Suc k..<Suc k + length cs]"
    by (subst upt_rec) simp
  with Cons.IH[of "Suc k"] show ?case
    by simp
qed

lemma queued_from_clock:
  "clock w' = clock w \<Longrightarrow> queued_from w' k cs = queued_from w k cs"
  by (induction cs arbitrary: k) simp_all

lemma writeCommand_world:
  "writeCommand c w
     = w\<lparr>commands := commands w @ queued_from w (ticks w) [c], ticks := Suc (ticks w)\<rparr>"
  by (simp add: writeCommand_def Date_now_def)

lemma writeCommands_world:
  "writeCommands cs w
     = w\<lparr>commands := commands w @ queued_from w (ticks w) cs, ticks := ticks w + length cs\<rparr>"
proof (induction cs arbitrary: w)
  case Nil
  show ?case by (simp add: writeCommands_def)
next
  case (Cons c cs)
  let ?w = "writeCommand c w"
  have clk: "clock ?w = clock w" and tk: "ticks ?w = Suc (ticks w)"
    and cm: "commands ?w = commands w @ queued_from w (ticks w) [c]"
    by (simp_all add: writeCommand_world)
  have "writeCommands (c # cs) w = writeCommands cs ?w"
    by (simp add: writeCommands_def)
  also have "\<dots> = ?w\<lparr>commands := commands ?w @ queued_from ?w (ticks ?w) cs,
      ticks := ticks ?w + length cs\<rparr>"
    by (rule Cons.IH)
  also have "\<dots> = ?w\<lparr>commands := commands w @ queued_from w (ticks w) (c # cs),
      ticks := ticks w + length (c # cs)\<rparr>"
    unfolding queued_from_clock[OF clk] tk cm by simp
  also have "\<dots> = w\<lparr>commands := commands w @ queued_from w (ticks w) (c # cs),
      ticks := ticks w + length (c # cs)\<rparr>"
    by (simp add: writeCommand_world)
  finally show ?case .
qed

text \<open>The group commands of \<open>auto_organize_tabs\<close>, in terms of the tabs that are filed.\<close>

lemma groupCommands_characterisation:
  "groupCommands (foldl assign_tab [] tp)
     = map (\<lambda>n. Create_group
                   (map tab_id (filter (\<lambda>t. category_of t = n) (filter (\<lambda>t. \<not> skipped t) tp)))
                   n (color_of n)
                   (''Group ''
                      @ show_nat (length (filter (\<lambda>t. category_of t = n)
                                                 (filter (\<lambda>t. \<not> skipped t) tp)))
                      @ '' tabs as '' @ dq @ n @ dq))
           (uniq (map category_of (filter (\<lambda>t. \<not> skipped t) tp)))"
proof -
  let ?ps = "filter (\<lambda>t. \<not> skipped t) tp"
  let ?ns = "uniq (map category_of ?ps)"
  let ?b = "\<lambda>n. (n, color_of n, filter (\<lambda>t. category_of t = n) ?ps)"
  have nonempty: "filter (\<lambda>t. category_of t = n) ?ps \<noteq> []" if "n \<in> set ?ns" for n
  proof -
    from that obtain t where "t \<in> set ?ps" and "category_of t = n"
      unfolding set_uniq by auto
    then show ?thesis
      unfolding filter_empty_conv by blast
  qed
  have "filter (\<lambda>(n, c, ts). length ts > 0) (map ?b ?ns) = map ?b ?ns"
    using nonempty by (auto simp: filter_id_conv)
  then show ?thesis
    unfolding groupCommands_def buckets_characterisation by (simp add: o_def)
qed


lemma auto_organize_tabs_world:
  "snd (auto_organize_tabs d a w)
     = writeCommands (close_first d a
                        @ groupCommands (categorizedTabs (closeDuplicates_arg a = Some True) (tabs d))) w"
  by (simp add: auto_organize_tabs_def close_first_def Let_def writeCommands_def)

lemma auto_organize_tabs_commands:
  "commands (snd (auto_organize_tabs d a w))
     = commands w
        @ queued_from w (ticks w)
            (close_first d a
               @ map (\<lambda>n. Create_group
                              (map tab_id (filter (\<lambda>t. category_of t = n) (filed_tabs d a)))
                              n (color_of n)
                              (''Group ''
                                 @ show_nat (length (filter (\<lambda>t. category_of t = n) (filed_tabs d a)))
                                 @ '' tabs as '' @ dq @ n @ dq))
                     (uniq (map category_of (filed_tabs d a))))"
  unfolding auto_organize_tabs_world writeCommands_world categorizedTabs_def
    groupCommands_characterisation filed_tabs_def
  by simp


lemma categorizedTabs_characterisation:
  "categorizedTabs (closeDuplicates_arg a = Some True) (tabs d)
     = map (\<lambda>n. (n, color_of n, filter (\<lambda>t. category_of t = n) (filed_tabs d a)))
           (uniq (map category_of (filed_tabs d a)))"
  unfolding categorizedTabs_def buckets_characterisation filed_tabs_def by simp

lemma filed_tabs_subset: "set (filed_tabs d a) \<subseteq> {t \<in> set (tabs d). \<not> skipped t}"
  by (auto simp: filed_tabs_def tabsToProcess_def)

lemma close_first_not_group: "Create_group ids n c desc \<notin> set (close_first d a)"
  by (simp add: close_first_def)

text \<open>
  Claim C5, as amended.  \<open>auto_organize_tabs\<close> appends, in this order: the close
  command, when \<open>closeDuplicates\<close> is set and there is a duplicate; then one create-group
  command for every category that received a tab (\<open>Other\<close> included), in the order in
  which the categories received their first tab in snapshot order, each with the
  identifiers of the tabs filed under it.  No category gets two commands.
\<close>

theorem auto_organize_command_order:
  "(\<exists>new. commands (snd (auto_organize_tabs d a w)) = commands w @ new
         \<and> map command new
             = close_first d a
                @ map (\<lambda>n. Create_group
                               (map tab_id (filter (\<lambda>t. category_of t = n) (filed_tabs d a)))
                               n (color_of n)
                               (''Group ''
                                  @ show_nat (length (filter (\<lambda>t. category_of t = n)
                                                             (filed_tabs d a)))
                                  @ '' tabs as '' @ dq @ n @ dq))
                      (uniq (map category_of (filed_tabs d a))))
   \<and> distinct (uniq (map category_of (filed_tabs d a)))
   \<and> set (uniq (map category_of (filed_tabs d a))) = category_of ` set (filed_tabs d a)
   \<and> close_first d a
       = (if closeDuplicates_arg a = Some True \<and> duplicateIds [] (tabs d) \<noteq> []
          then [Close_tabs (duplicateIds [] (tabs d))
                  (''Close '' @ show_nat (length (duplicateIds [] (tabs d)))
                     @ '' duplicate tabs'')]
          else [])"
proof -
  let ?cs = "close_first d a
      @ map (\<lambda>n. Create_group
                     (map tab_id (filter (\<lambda>t. category_of t = n) (filed_tabs d a)))
                     n (color_of n)
                     (''Group ''
                        @ show_nat (length (filter (\<lambda>t. category_of t = n) (filed_tabs d a)))
                        @ '' tabs as '' @ dq @ n @ dq))
            (uniq (map category_of (filed_tabs d a)))"
  have "commands (snd (auto_organize_tabs d a w)) = commands w @ queued_from w (ticks w) ?cs"
    by (rule auto_organize_tabs_commands)
  moreover have "map command (queued_from w (ticks w) ?cs) = ?cs"
    by (rule queued_from_command)
  ultimately have "\<exists>new. commands (snd (auto_organize_tabs d a w)) = commands w @ new
      \<and> map command new = ?cs"
    by blast
  then show ?thesis
    by (simp add: distinct_uniq set_uniq close_first_def)
qed

text \<open>The theorem at a snapshot with a duplicate, a pinned tab and an internal page.\<close>

lemma docs_then_github_planned:
  "close_first (snapshot_of tabs_docs_then_github) args_close_duplicates
     @ map (\<lambda>n. Create_group
                    (map tab_id (filter (\<lambda>t. category_of t = n)
                                   (filed_tabs (snapshot_of tabs_docs_then_github)
                                      args_close_duplicates)))
                    n (color_of n)
                    (''Group ''
                       @ show_nat (length (filter (\<lambda>t. category_of t = n)
                                             (filed_tabs (snapshot_of tabs_docs_then_github)
                                                args_close_duplicates)))
                       @ '' tabs as '' @ dq @ n @ dq))
           (uniq (map category_of (filed_tabs (snapshot_of tabs_docs_then_github)
                                     args_close_duplicates)))
   = [Close_tabs [5] ''Close 1 duplicate tabs'',
      Create_group [1] ''Docs'' ''purple'' (''Group 1 tabs as '' @ dq @ ''Docs'' @ dq),
      Create_group [2] ''GitHub'' ''green'' (''Group 1 tabs as '' @ dq @ ''GitHub'' @ dq)]"
  by code_simp

theorem auto_organize_command_order_witness:
  "closeDuplicates_arg args_close_duplicates = Some True
   \<and> duplicateIds [] (tabs (snapshot_of tabs_docs_then_github)) \<noteq> []
   \<and> map command (commands (snd (auto_organize_tabs (snapshot_of tabs_docs_then_github)
                                     args_close_duplicates (world_at None))))
       = [Close_tabs [5] ''Close 1 duplicate tabs'',
          Create_group [1] ''Docs'' ''purple'' (''Group 1 tabs as '' @ dq @ ''Docs'' @ dq),
          Create_group [2] ''GitHub'' ''green'' (''Group 1 tabs as '' @ dq @ ''GitHub'' @ dq)]"
proof -
  have h: "closeDuplicates_arg args_close_duplicates = Some True"
    "duplicateIds [] (tabs (snapshot_of tabs_docs_then_github)) \<noteq> []"
    by code_simp+
  have "\<exists>new. commands (snd (auto_organize_tabs (snapshot_of tabs_docs_then_github)
                      args_close_duplicates (world_at None)))
       = commands (world_at None) @ new
     \<and> map command new
       = [Close_tabs [5] ''Close 1 duplicate tabs'',
          Create_group [1] ''Docs'' ''purple'' (''Group 1 tabs as '' @ dq @ ''Docs'' @ dq),
          Create_group [2] ''GitHub'' ''green'' (''Group 1 tabs as '' @ dq @ ''GitHub'' @ dq)]"
    using auto_organize_command_order[of "snapshot_of tabs_docs_then_github"
        args_close_duplicates "world_at None", THEN conjunct1]
    unfolding docs_then_github_planned .
  then obtain new where
    "commands (snd (auto_organize_tabs (snapshot_of tabs_docs_then_github)
                      args_close_duplicates (world_at None)))
       = commands (world_at None) @ new"
    and "map command new
       = [Close_tabs [5] ''Close 1 duplicate tabs'',
          Create_group [1] ''Docs'' ''purple'' (''Group 1 tabs as '' @ dq @ ''Docs'' @ dq),
          Create_group [2] ''GitHub'' ''green'' (''Group 1 tabs as '' @ dq @ ''GitHub'' @ dq)]"
    by (elim exE conjE)
  then have "map command (commands (snd (auto_organize_tabs (snapshot_of tabs_docs_then_github)
                                     args_close_duplicates (world_at None))))
       = [Close_tabs [5] ''Close 1 duplicate tabs'',
          Create_group [1] ''Docs'' ''purple'' (''Group 1 tabs as '' @ dq @ ''Docs'' @ dq),
          Create_group [2] ''GitHub'' ''green'' (''Group 1 tabs as '' @ dq @ ''GitHub'' @ dq)]"
    by (simp add: world_at_def)
  with h show ?thesis by blast
qed

text \<open>
  Claim C5 as stated fails: with a documentation tab in front of a GitHub tab the command
  for \<open>Docs\<close> is appended before the command for \<open>GitHub\<close>, and the catalog has
  \<open>GitHub\<close> before \<open>Docs\<close>.
\<close>

theorem auto_organize_first_assignment_order:
  "map name categoryDefinitions
     = [''GitHub'', ''Jira'', ''Confluence'', ''Docs'', ''Local Dev'', ''AI Tools'', ''Articles'',
        ''Metrics'', ''Meetings'', ''Support'', ''Social'', ''Shopping'', ''Entertainment'',
        ''Search'']
   \<and> map command (commands (snd (auto_organize_tabs (snapshot_of tabs_docs_then_github) no_args
                                     (world_at None))))
       = [Create_group [1] ''Docs'' ''purple'' (''Group 1 tabs as '' @ dq @ ''Docs'' @ dq),
          Create_group [2, 5] ''GitHub'' ''green'' (''Group 2 tabs as '' @ dq @ ''GitHub'' @ dq)]"
  by code_simp

text \<open>
  Claim C4, as amended.  Every tab in a category bucket of \<open>auto_organize_tabs\<close> is a tab
  of the snapshot that is not pinned and whose URL starts with neither \<open>chrome://\<close> nor
  \<open>chrome-extension://\<close>; every create-group command that is appended carries the
  identifiers of the tabs of one bucket; and when the tab identifiers of the snapshot are
  distinct, the identifier of a pinned or internal tab is in no create-group command.
  Nothing is said about the close command, which is computed from all tabs.
\<close>

theorem auto_organize_skips_pinned_and_internal:
  "(\<forall>(n, c, ts) \<in> set (categorizedTabs (closeDuplicates_arg a = Some True) (tabs d)).
      \<forall>t \<in> set ts. t \<in> set (tabs d) \<and> \<not> pinned t \<and> \<not> startsWith (url t) ''chrome://''
                   \<and> \<not> startsWith (url t) ''chrome-extension://'')
   \<and> (\<exists>new. commands (snd (auto_organize_tabs d a w)) = commands w @ new
         \<and> (\<forall>q \<in> set new. \<forall>ids n c desc. command q = Create_group ids n c desc
               \<longrightarrow> (\<exists>ts. (n, c, ts) \<in> set (categorizedTabs (closeDuplicates_arg a = Some True)
                                                (tabs d))
                        \<and> ids = map tab_id ts))
         \<and> (distinct (map tab_id (tabs d))
               \<longrightarrow> (\<forall>t \<in> set (tabs d).
                      pinned t \<or> startsWith (url t) ''chrome://''
                        \<or> startsWith (url t) ''chrome-extension://''
                      \<longrightarrow> (\<forall>q \<in> set new. \<forall>ids n c desc.
                             command q = Create_group ids n c desc \<longrightarrow> tab_id t \<notin> set ids))))"
proof -
  let ?bs = "categorizedTabs (closeDuplicates_arg a = Some True) (tabs d)"
  let ?new = "queued_from w (ticks w) (close_first d a @ groupCommands ?bs)"
  have bucket: "t \<in> set (tabs d) \<and> \<not> skipped t" if "(n, c, ts) \<in> set ?bs" and "t \<in> set ts"
    for n c ts t
  proof -
    from that(1) have "ts = filter (\<lambda>t. category_of t = n) (filed_tabs d a)"
      unfolding categorizedTabs_characterisation by auto
    with that(2) have "t \<in> set (filed_tabs d a)" by simp
    with filed_tabs_subset show ?thesis by blast
  qed
  then have part1: "\<forall>(n, c, ts) \<in> set ?bs.
      \<forall>t \<in> set ts. t \<in> set (tabs d) \<and> \<not> pinned t \<and> \<not> startsWith (url t) ''chrome://''
                   \<and> \<not> startsWith (url t) ''chrome-extension://''"
    by (auto simp: skipped_def)
  have cmds: "commands (snd (auto_organize_tabs d a w)) = commands w @ ?new"
    by (simp add: auto_organize_tabs_world writeCommands_world)
  have from_bucket: "\<exists>ts. (n, c, ts) \<in> set ?bs \<and> ids = map tab_id ts"
    if "q \<in> set ?new" and "command q = Create_group ids n c desc" for q ids n c desc
  proof -
    from that(1) have "command q \<in> set (map command ?new)" by simp
    then have "command q \<in> set (close_first d a @ groupCommands ?bs)"
      by (simp only: queued_from_command)
    with that(2) close_first_not_group have "Create_group ids n c desc \<in> set (groupCommands ?bs)"
      by auto
    then show ?thesis
      by (auto simp: groupCommands_def)
  qed
  have no_skipped: "tab_id t \<notin> set ids"
    if dist: "distinct (map tab_id (tabs d))" and t: "t \<in> set (tabs d)" and sk: "skipped t"
      and q: "q \<in> set ?new" "command q = Create_group ids n c desc" for t q ids n c desc
  proof
    assume "tab_id t \<in> set ids"
    moreover from from_bucket[OF q] obtain ts where ts: "(n, c, ts) \<in> set ?bs" "ids = map tab_id ts"
      by blast
    ultimately obtain t' where t': "t' \<in> set ts" "tab_id t' = tab_id t"
      by auto
    from bucket[OF ts(1) t'(1)] have "t' \<in> set (tabs d)" and "\<not> skipped t'"
      by simp_all
    with dist t t'(2) have "t' = t"
      by (metis distinct_map inj_onD)
    with sk \<open>\<not> skipped t'\<close> show False by simp
  qed
  have part3: "distinct (map tab_id (tabs d))
      \<longrightarrow> (\<forall>t \<in> set (tabs d).
             pinned t \<or> startsWith (url t) ''chrome://''
               \<or> startsWith (url t) ''chrome-extension://''
             \<longrightarrow> (\<forall>q \<in> set ?new. \<forall>ids n c desc.
                    command q = Create_group ids n c desc \<longrightarrow> tab_id t \<notin> set ids))"
    using no_skipped unfolding skipped_def by blast
  from part1 cmds from_bucket part3 show ?thesis
    by blast
qed


text \<open>The theorem at a snapshot with a pinned tab and an internal page.\<close>

lemma docs_then_github_facts:
  "distinct (map tab_id (tabs (snapshot_of tabs_docs_then_github)))"
  "tabs_docs_then_github ! 2 \<in> set (tabs (snapshot_of tabs_docs_then_github))"
  "pinned (tabs_docs_then_github ! 2)"
  "tab_id (tabs_docs_then_github ! 2) = 3"
  "tabs_docs_then_github ! 3 \<in> set (tabs (snapshot_of tabs_docs_then_github))"
  "startsWith (url (tabs_docs_then_github ! 3)) ''chrome://''"
  "tab_id (tabs_docs_then_github ! 3) = 4"
  by code_simp+

lemma docs_then_github_commands:
  "map command (commands (snd (auto_organize_tabs (snapshot_of tabs_docs_then_github)
                                 args_close_duplicates (world_at None))))
     = [Close_tabs [5] ''Close 1 duplicate tabs'',
        Create_group [1] ''Docs'' ''purple'' (''Group 1 tabs as '' @ dq @ ''Docs'' @ dq),
        Create_group [2] ''GitHub'' ''green'' (''Group 1 tabs as '' @ dq @ ''GitHub'' @ dq)]"
  by code_simp

theorem auto_organize_skips_pinned_and_internal_witness:
  "distinct (map tab_id (tabs (snapshot_of tabs_docs_then_github)))
   \<and> tabs_docs_then_github ! 2 \<in> set (tabs (snapshot_of tabs_docs_then_github))
   \<and> pinned (tabs_docs_then_github ! 2)
   \<and> tabs_docs_then_github ! 3 \<in> set (tabs (snapshot_of tabs_docs_then_github))
   \<and> startsWith (url (tabs_docs_then_github ! 3)) ''chrome://''
   \<and> map command (commands (snd (auto_organize_tabs (snapshot_of tabs_docs_then_github)
                                     args_close_duplicates (world_at None))))
       = [Close_tabs [5] ''Close 1 duplicate tabs'',
          Create_group [1] ''Docs'' ''purple'' (''Group 1 tabs as '' @ dq @ ''Docs'' @ dq),
          Create_group [2] ''GitHub'' ''green'' (''Group 1 tabs as '' @ dq @ ''GitHub'' @ dq)]
   \<and> list_all (\<lambda>q. case command q of
                        Create_group ids n c desc \<Rightarrow> 3 \<notin> set ids \<and> 4 \<notin> set ids
                      | _ \<Rightarrow> True)
        (commands (snd (auto_organize_tabs (snapshot_of tabs_docs_then_github)
                          args_close_duplicates (world_at None))))"
proof -
  note f = docs_then_github_facts
  from auto_organize_skips_pinned_and_internal[of args_close_duplicates
      "snapshot_of tabs_docs_then_github" "world_at None", THEN conjunct2]
  obtain new where
    c: "commands (snd (auto_organize_tabs (snapshot_of tabs_docs_then_github)
                         args_close_duplicates (world_at None)))
          = commands (world_at None) @ new"
    and s: "distinct (map tab_id (tabs (snapshot_of tabs_docs_then_github)))
        \<longrightarrow> (\<forall>t \<in> set (tabs (snapshot_of tabs_docs_then_github)).
               pinned t \<or> startsWith (url t) ''chrome://''
                 \<or> startsWith (url t) ''chrome-extension://''
               \<longrightarrow> (\<forall>q \<in> set new. \<forall>ids n c desc.
                      command q = Create_group ids n c desc \<longrightarrow> tab_id t \<notin> set ids))"
    by (elim exE conjE)
  have e: "commands (world_at None) = []"
    by (simp add: world_at_def)
  have m: "map command new
      = [Close_tabs [5] ''Close 1 duplicate tabs'',
         Create_group [1] ''Docs'' ''purple'' (''Group 1 tabs as '' @ dq @ ''Docs'' @ dq),
         Create_group [2] ''GitHub'' ''green'' (''Group 1 tabs as '' @ dq @ ''GitHub'' @ dq)]"
    using docs_then_github_commands unfolding c e append_Nil .
  note s1 = s[THEN mp, OF f(1)]
  note p2 = s1[THEN bspec, OF f(2), THEN mp, OF disjI1, OF f(3), unfolded f(4)]
  note p3 = s1[THEN bspec, OF f(5), THEN mp, OF disjI2, OF disjI1, OF f(6), unfolded f(7)]
  have no: "\<forall>q \<in> set new. \<forall>ids n c desc.
      command q = Create_group ids n c desc \<longrightarrow> 3 \<notin> set ids \<and> 4 \<notin> set ids"
  proof (intro ballI allI impI)
    fix q ids n c desc
    assume q: "q \<in> set new" "command q = Create_group ids n c desc"
    have "3 \<notin> set ids"
      by (rule p2[THEN bspec, OF q(1), THEN spec, THEN spec, THEN spec, THEN spec, THEN mp,
            OF q(2)])
    moreover have "4 \<notin> set ids"
      by (rule p3[THEN bspec, OF q(1), THEN spec, THEN spec, THEN spec, THEN spec, THEN mp,
            OF q(2)])
    ultimately show "3 \<notin> set ids \<and> 4 \<notin> set ids" by (rule conjI)
  qed
  have cn: "new = commands (snd (auto_organize_tabs (snapshot_of tabs_docs_then_github)
                                   args_close_duplicates (world_at None)))"
    using c unfolding e append_Nil by (rule sym)
  have la: "list_all (\<lambda>q. case command q of
                        Create_group ids n c desc \<Rightarrow> 3 \<notin> set ids \<and> 4 \<notin> set ids
                      | _ \<Rightarrow> True) new"
    unfolding list_all_iff
  proof
    fix q assume "q \<in> set new"
    with no show "case command q of
        Create_group ids n c desc \<Rightarrow> 3 \<notin> set ids \<and> 4 \<notin> set ids | _ \<Rightarrow> True"
      by (cases "command q") simp_all
  qed
  from f(1,2,3,5,6) m la show ?thesis
    unfolding cn by (intro conjI)
qed

text \<open>
  Claim C4 as stated fails for the close command: the second of two tabs with the same URL
  is closed as a duplicate although it is pinned.
\<close>

theorem close_command_holds_pinned_tab:
  "pinned (tabs_pinned_duplicate ! 1) \<and> tab_id (tabs_pinned_duplicate ! 1) = 2
   \<and> map command (commands (snd (auto_organize_tabs (snapshot_of tabs_pinned_duplicate)
                                     args_close_duplicates (world_at None))))
       = [Close_tabs [2] ''Close 1 duplicate tabs'',
          Create_group [1] ''GitHub'' ''green'' (''Group 1 tabs as '' @ dq @ ''GitHub'' @ dq)]"
  by code_simp

section \<open>Empty targets\<close>

text \<open>
  Claim C6.  With \<open>closeDuplicates\<close> set and two pinned tabs on the same URL,
  \<open>auto_organize_tabs\<close> has no tab to file and answers that there are no tabs to organize,
  yet the command queue, empty before, holds a close command afterwards: the close command
  is written before the test for an empty list of group commands.
\<close>

theorem auto_organize_nothing_to_do_after_close:
  "filed_tabs (snapshot_of tabs_all_pinned) args_close_duplicates = []
   \<and> fst (auto_organize_tabs (snapshot_of tabs_all_pinned) args_close_duplicates (world_at None))
       = ''No tabs to organize (all tabs are pinned or extension pages).''
   \<and> commands (snd (auto_organize_tabs (snapshot_of tabs_all_pinned) args_close_duplicates
                       (world_at None)))
       = [\<lparr>command = Close_tabs [2] ''Close 1 duplicate tabs'', cmd_id = 1000,
            status = ''pending''\<rparr>]
   \<and> commands (world_at None) = []"
  by code_simp

lemma empty_target_leaves_world:
  "tabsToClose (tabs d) a = [] \<Longrightarrow> close_tabs d a w = (''No matching tabs found to close.'', w)"
  "duplicateIds [] (tabs d) = []
     \<Longrightarrow> close_duplicate_tabs d w = (''No duplicate tabs found!'', w)"
  "name_arg a = Some nm \<Longrightarrow> nm \<noteq> [] \<Longrightarrow> domain_arg a = Some dm \<Longrightarrow> dm \<noteq> []
     \<Longrightarrow> filter (\<lambda>t. str_includes (domain t) (toLowerCase dm)) (tabs d) = []
     \<Longrightarrow> create_tab_group d a w = (''No tabs found matching domain '' @ dq @ dm @ dq, w)"
  "targetTab (tabs d) a = None \<Longrightarrow> focus_tab d a w = (''Tab not found.'', w)"
  "groupedTabs (tabs d) = []
     \<Longrightarrow> ungroup_all_tabs d w = (''No tabs are currently in groups.'', w)"
  "shufflableTabs (tabs d) = [] \<Longrightarrow> shuffle_tabs d w = (''Not enough tabs to shuffle.'', w)"
  "filed_tabs d a = [] \<Longrightarrow> close_first d a = []
     \<Longrightarrow> auto_organize_tabs d a w
         = (''No tabs to organize (all tabs are pinned or extension pages).'', w)"
proof -
  show "close_tabs d a w = (''No matching tabs found to close.'', w)"
    if "tabsToClose (tabs d) a = []"
    using that by (simp add: close_tabs_def)
  show "close_duplicate_tabs d w = (''No duplicate tabs found!'', w)"
    if "duplicateIds [] (tabs d) = []"
    using that by (simp add: close_duplicate_tabs_def)
  show "create_tab_group d a w = (''No tabs found matching domain '' @ dq @ dm @ dq, w)"
    if "name_arg a = Some nm" "nm \<noteq> []" "domain_arg a = Some dm" "dm \<noteq> []"
      "filter (\<lambda>t. str_includes (domain t) (toLowerCase dm)) (tabs d) = []"
    using that by (simp add: create_tab_group_def truthy_string_def)
  show "focus_tab d a w = (''Tab not found.'', w)" if "targetTab (tabs d) a = None"
    using that by (simp add: focus_tab_def)
  show "ungroup_all_tabs d w = (''No tabs are currently in groups.'', w)"
    if "groupedTabs (tabs d) = []"
    using that by (simp add: ungroup_all_tabs_def)
  show "shuffle_tabs d w = (''Not enough tabs to shuffle.'', w)"
    if "shufflableTabs (tabs d) = []"
    using that by (simp add: shuffle_tabs_def)
  show "auto_organize_tabs d a w
         = (''No tabs to organize (all tabs are pinned or extension pages).'', w)"
    if f: "filed_tabs d a = []" and c: "close_first d a = []"
  proof -
    have g: "groupCommands (categorizedTabs (closeDuplicates_arg a = Some True) (tabs d)) = []"
      using f unfolding categorizedTabs_def groupCommands_characterisation
      by (simp add: filed_tabs_def uniq_def)
    have "snd (auto_organize_tabs d a w) = w"
      unfolding auto_organize_tabs_world g c by (simp add: writeCommands_def)
    moreover have "fst (auto_organize_tabs d a w)
        = ''No tabs to organize (all tabs are pinned or extension pages).''"
      using g by (simp add: auto_organize_tabs_def Let_def)
    ultimately show ?thesis
      by (simp add: prod_eq_iff)
  qed
qed

section \<open>The command queue\<close>

text \<open>What the operations do to the world.\<close>

lemma formatAge_world: "snd (formatAge ts w) = w\<lparr>ticks := Suc (ticks w)\<rparr>"
  by (simp add: formatAge_def Date_now_def Let_def)

lemma old_tab_lines_world: "snd (old_tab_lines ts w) = w\<lparr>ticks := ticks w + length ts\<rparr>"
proof (induction ts arbitrary: w)
  case Nil
  show ?case by simp
next
  case (Cons t ts)
  show ?case
    using Cons.IH[of "snd (formatAge (accessed t) w)"]
    by (simp add: split_def formatAge_world)
qed

lemma find_old_tabs_world: "\<exists>n. snd (find_old_tabs d a w) = w\<lparr>ticks := ticks w + n\<rparr>"
proof -
  let ?old = "sort_key accessed
               (filter (older_than (clock w (ticks w)
                          - (if truthy_number (hours_arg a) then the (hours_arg a) else 24)
                            * 60 * 60 * 1000)) (tabs d))"
  have "snd (find_old_tabs d a w) = snd (old_tab_lines ?old (w\<lparr>ticks := Suc (ticks w)\<rparr>))"
    by (simp add: find_old_tabs_def Date_now_def split_def Let_def)
  also have "\<dots> = w\<lparr>ticks := ticks w + Suc (length ?old)\<rparr>"
    by (simp add: old_tab_lines_world)
  finally show ?thesis
    by blast
qed

lemma suggest_tab_organization_world:
  "snd (suggest_tab_organization d w) = w\<lparr>ticks := ticks w + 1\<rparr>"
  by (simp add: suggest_tab_organization_def Date_now_def split_def Let_def)

lemma writes_none: "writes w w"
  unfolding writes_def by (rule exI[of _ "[]"]) (simp add: writeCommands_def)

lemma writes_one: "writes w (writeCommand c w)"
  unfolding writes_def by (rule exI[of _ "[c]"]) (simp add: writeCommands_def)

lemma writes_many: "writes w (writeCommands cs w)"
  unfolding writes_def by (rule exI) (rule refl)

lemma planner_writes:
  "writes w (snd (close_tabs d a w))"
  "writes w (snd (close_duplicate_tabs d w))"
  "writes w (snd (create_tab_group d a w))"
  "writes w (snd (focus_tab d a w))"
  "writes w (snd (auto_organize_tabs d a w))"
  "writes w (snd (ungroup_all_tabs d w))"
  "writes w (snd (shuffle_tabs d w))"
proof -
  show "writes w (snd (close_tabs d a w))"
    by (simp add: close_tabs_def Let_def writes_none writes_one)
  show "writes w (snd (close_duplicate_tabs d w))"
    by (simp add: close_duplicate_tabs_def Let_def writes_none writes_one)
  show "writes w (snd (create_tab_group d a w))"
    by (simp add: create_tab_group_def Let_def writes_none writes_one)
  show "writes w (snd (focus_tab d a w))"
    by (cases "targetTab (tabs d) a") (simp_all add: focus_tab_def writes_none writes_one)
  show "writes w (snd (auto_organize_tabs d a w))"
    unfolding auto_organize_tabs_world by (rule writes_many)
  show "writes w (snd (ungroup_all_tabs d w))"
    by (simp add: ungroup_all_tabs_def Let_def writes_none writes_one)
  show "writes w (snd (shuffle_tabs d w))"
    by (simp add: shuffle_tabs_def Let_def writes_none writes_one)
qed


lemma evolves_refl: "evolves w w"
  unfolding evolves_def by (rule exI[of _ 0], rule exI[of _ "[]"]) (simp add: writeCommands_def)

lemma evolves_ticks: "evolves w (w\<lparr>ticks := ticks w + n\<rparr>)"
  unfolding evolves_def by (rule exI[of _ n], rule exI[of _ "[]"]) (simp add: writeCommands_def)

lemma evolves_writes: "writes w w' \<Longrightarrow> evolves w w'"
  unfolding evolves_def writes_def by (elim exE, rule exI[of _ 0]) auto

lemma evolves_after_tick:
  assumes "evolves (w\<lparr>ticks := Suc (ticks w)\<rparr>) w'"
  shows "evolves w w'"
proof -
  from assms obtain n cs
    where "w' = writeCommands cs (w\<lparr>ticks := Suc (ticks w)\<rparr>\<lparr>ticks := Suc (ticks w) + n\<rparr>)"
    unfolding evolves_def by auto
  then have "w' = writeCommands cs (w\<lparr>ticks := ticks w + Suc n\<rparr>)"
    by simp
  then show ?thesis
    unfolding evolves_def by blast
qed

lemma tool_switch_evolves:
  assumes "tool_switch tool age d a w = Inr (text, w')"
  shows "evolves w w'"
proof -
  have old: "evolves w (snd (find_old_tabs d a w))"
    using find_old_tabs_world[of d a w] evolves_ticks[of w] by auto
  have sug: "evolves w (snd (suggest_tab_organization d w))"
    unfolding suggest_tab_organization_world by (rule evolves_ticks)
  note pl = planner_writes[THEN evolves_writes]
  have snd_eq: "\<And>r. r = (text, w') \<Longrightarrow> w' = snd r"
    by simp
  from assms show ?thesis
    unfolding tool_switch_def
    by (auto split: if_splits sum.splits dest!: snd_eq simp: evolves_refl old sug pl)
qed

lemma call_tool_evolves:
  assumes "call_tool tool a w = Inr (text, w')"
  shows "evolves w w'"
proof (cases "loadTabs w")
  case None
  with assms show ?thesis by (simp add: call_tool_def evolves_refl)
next
  case (Some d)
  with assms have "tool_switch tool (fst (formatAge (timestamp d) w)) d a
      (w\<lparr>ticks := Suc (ticks w)\<rparr>) = Inr (text, w')"
    using formatAge_world[of "timestamp d" w]
    by (simp add: call_tool_def split_def)
  then have "evolves (w\<lparr>ticks := Suc (ticks w)\<rparr>) w'"
    by (rule tool_switch_evolves)
  then show ?thesis
    by (rule evolves_after_tick)
qed

lemma evolves_commands:
  assumes "evolves w w'"
  shows "\<exists>k cs. ticks w \<le> k \<and> commands w' = commands w @ queued_from w k cs"
proof -
  from assms obtain n cs where "w' = writeCommands cs (w\<lparr>ticks := ticks w + n\<rparr>)"
    unfolding evolves_def by auto
  then have "commands w' = commands w @ queued_from (w\<lparr>ticks := ticks w + n\<rparr>) (ticks w + n) cs"
    by (simp add: writeCommands_world)
  also have "queued_from (w\<lparr>ticks := ticks w + n\<rparr>) (ticks w + n) cs
      = queued_from w (ticks w + n) cs"
    by (rule queued_from_clock) simp
  finally show ?thesis
    by (intro exI[of _ "ticks w + n"] exI[of _ cs]) simp
qed

text \<open>
  Claim C9, as amended.  Whatever a tool call appends to the queue is appended behind the
  records that were there; every appended record has status \<open>pending\<close>; the identifiers
  of the appended records are successive readings of the clock, taken at the appends.  They
  are in non-decreasing order if the clock does not run backwards (\<open>mono\<close>), and
  pairwise distinct if the clock advances from each reading to the next
  (\<open>strict_mono\<close>).
\<close>

theorem queued_records:
  assumes "call_tool tool a w = Inr (text, w')"
  shows "\<exists>new k. commands w' = commands w @ new \<and> ticks w \<le> k
           \<and> (\<forall>q \<in> set new. status q = ''pending'')
           \<and> map cmd_id new = map (clock w) [k..<k + length new]
           \<and> (mono (clock w) \<longrightarrow> sorted (map cmd_id new))
           \<and> (strict_mono (clock w) \<longrightarrow> distinct (map cmd_id new))"
proof -
  from call_tool_evolves[OF assms] obtain k cs
    where k: "ticks w \<le> k" and c: "commands w' = commands w @ queued_from w k cs"
    using evolves_commands by blast
  let ?new = "queued_from w k cs"
  have ids: "map cmd_id ?new = map (clock w) [k..<k + length ?new]"
    by (simp add: queued_from_ids queued_from_length)
  have pend: "\<forall>q \<in> set ?new. status q = ''pending''"
    by (simp add: queued_from_status)
  have srt: "sorted (map cmd_id ?new)" if "mono (clock w)"
    unfolding ids using that by (simp add: sorted_iff_nth_mono mono_def)
  have dst: "distinct (map cmd_id ?new)" if "strict_mono (clock w)"
  proof -
    from that have "\<forall>i j. i < j \<longrightarrow> clock w i < clock w j"
      by (simp add: strict_mono_def)
    have "clock w (k + i) \<noteq> clock w (k + j)" if "i \<noteq> j" for i j
    proof (cases "i < j")
      case True
      then have "clock w (k + i) < clock w (k + j)"
        using \<open>\<forall>i j. i < j \<longrightarrow> clock w i < clock w j\<close> by simp
      then show ?thesis by simp
    next
      case False
      with that have "j < i" by simp
      then have "clock w (k + j) < clock w (k + i)"
        using \<open>\<forall>i j. i < j \<longrightarrow> clock w i < clock w j\<close> by simp
      then show ?thesis by simp
    qed
    then show ?thesis
      unfolding ids by (simp add: distinct_conv_nth)
  qed
  from c k pend ids srt dst show ?thesis
    by blast
qed

lemma synced_call:
  "call_tool ''auto_organize_tabs'' no_args (world_synced tabs_docs_then_github)
     = Inr (auto_organize_tabs (snapshot_of tabs_docs_then_github) no_args
              ((world_synced tabs_docs_then_github)\<lparr>ticks := 1\<rparr>))"
  by (simp add: call_tool_def tool_switch_def loadTabs_def world_synced_def world_at_def
      split_def formatAge_world)

lemma synced_ids:
  "map cmd_id (commands (snd (auto_organize_tabs (snapshot_of tabs_docs_then_github) no_args
                                ((world_synced tabs_docs_then_github)\<lparr>ticks := 1\<rparr>))))
     = [1001, 1002]"
  by code_simp

lemma synced_clock:
  "strict_mono (clock (world_synced ts))"
  "mono (clock (world_synced ts))"
  "commands (world_synced ts) = []"
  by (simp_all add: world_synced_def world_at_def strict_mono_def mono_def)

text \<open>The theorem at a call of \<open>auto_organize_tabs\<close> that appends two commands.\<close>

theorem queued_records_witness:
  "mono (clock (world_synced tabs_docs_then_github))
   \<and> strict_mono (clock (world_synced tabs_docs_then_github))
   \<and> call_tool ''auto_organize_tabs'' no_args (world_synced tabs_docs_then_github)
       = Inr (auto_organize_tabs (snapshot_of tabs_docs_then_github) no_args
                ((world_synced tabs_docs_then_github)\<lparr>ticks := 1\<rparr>))
   \<and> map cmd_id (commands (snd (auto_organize_tabs (snapshot_of tabs_docs_then_github) no_args
                                    ((world_synced tabs_docs_then_github)\<lparr>ticks := 1\<rparr>))))
       = [1001, 1002]
   \<and> sorted (map cmd_id (commands (snd (auto_organize_tabs (snapshot_of tabs_docs_then_github)
                no_args ((world_synced tabs_docs_then_github)\<lparr>ticks := 1\<rparr>)))))
   \<and> distinct (map cmd_id (commands (snd (auto_organize_tabs (snapshot_of tabs_docs_then_github)
                no_args ((world_synced tabs_docs_then_github)\<lparr>ticks := 1\<rparr>)))))
   \<and> list_all (\<lambda>q. status q = ''pending'')
        (commands (snd (auto_organize_tabs (snapshot_of tabs_docs_then_github)
                no_args ((world_synced tabs_docs_then_github)\<lparr>ticks := 1\<rparr>))))"
proof -
  let ?W = "world_synced tabs_docs_then_github"
  let ?R = "auto_organize_tabs (snapshot_of tabs_docs_then_github) no_args (?W\<lparr>ticks := 1\<rparr>)"
  have call: "call_tool ''auto_organize_tabs'' no_args ?W = Inr (fst ?R, snd ?R)"
    using synced_call by simp
  from queued_records[OF call] obtain new
    where c: "commands (snd ?R) = commands ?W @ new"
      and p: "\<forall>q \<in> set new. status q = ''pending''"
      and s: "mono (clock ?W) \<longrightarrow> sorted (map cmd_id new)"
      and d: "strict_mono (clock ?W) \<longrightarrow> distinct (map cmd_id new)"
    by (elim exE conjE)
  have n: "new = commands (snd ?R)"
    using c unfolding synced_clock(3) append_Nil by (rule sym)
  from s synced_clock(2) have s': "sorted (map cmd_id new)" by (rule mp)
  from d synced_clock(1) have d': "distinct (map cmd_id new)" by (rule mp)
  from p have p': "list_all (\<lambda>q. status q = ''pending'') new"
    unfolding list_all_iff .
  from synced_clock(2)[of tabs_docs_then_github] synced_clock(1)[of tabs_docs_then_github]
    synced_call synced_ids s' d' p'
  show ?thesis
    unfolding n by (intro conjI)
qed

text \<open>
  Claim C9 as stated fails for uniqueness: when the clock shows the same millisecond at
  both appends, the two commands of one \<open>auto_organize_tabs\<close> call get the same
  identifier.
\<close>

theorem same_millisecond_same_id:
  "(case call_tool ''auto_organize_tabs'' no_args world_same_ms of
      Inl e \<Rightarrow> []
    | Inr r \<Rightarrow> map cmd_id (commands (snd r)))
     = [1000, 1000]
   \<and> \<not> distinct [1000 :: int, 1000]"
  by code_simp

section \<open>The missing snapshot\<close>

lemma planner_texts:
  "fst (close_tabs d a w) \<noteq> no_tab_data"
  "fst (close_duplicate_tabs d w) \<noteq> no_tab_data"
  "fst (create_tab_group d a w) \<noteq> no_tab_data"
  "fst (focus_tab d a w) \<noteq> no_tab_data"
  "fst (auto_organize_tabs d a w) \<noteq> no_tab_data"
  "fst (ungroup_all_tabs d w) \<noteq> no_tab_data"
  "fst (shuffle_tabs d w) \<noteq> no_tab_data"
proof -
  show "fst (close_tabs d a w) \<noteq> no_tab_data"
    by (simp add: close_tabs_def Let_def no_tab_data_def)
  show "fst (close_duplicate_tabs d w) \<noteq> no_tab_data"
    by (simp add: close_duplicate_tabs_def Let_def no_tab_data_def)
  show "fst (create_tab_group d a w) \<noteq> no_tab_data"
    by (simp add: create_tab_group_def Let_def no_tab_data_def)
  show "fst (focus_tab d a w) \<noteq> no_tab_data"
    by (cases "targetTab (tabs d) a") (simp_all add: focus_tab_def no_tab_data_def)
  show "fst (auto_organize_tabs d a w) \<noteq> no_tab_data"
    by (simp add: auto_organize_tabs_def Let_def no_tab_data_def)
  show "fst (ungroup_all_tabs d w) \<noteq> no_tab_data"
    by (simp add: ungroup_all_tabs_def Let_def no_tab_data_def)
  show "fst (shuffle_tabs d w) \<noteq> no_tab_data"
    by (simp add: shuffle_tabs_def Let_def no_tab_data_def)
qed

lemma analysis_texts:
  "list_tabs age d a \<noteq> no_tab_data"
  "group_tabs_by_domain d \<noteq> no_tab_data"
  "find_duplicate_tabs d \<noteq> Inr no_tab_data"
  "fst (find_old_tabs d a w) \<noteq> no_tab_data"
  "get_tab_stats age d \<noteq> no_tab_data"
  "find_tabs_by_category d \<noteq> no_tab_data"
  "fst (suggest_tab_organization d w) \<noteq> no_tab_data"
  "suggest_focus_tabs d a \<noteq> Inr no_tab_data"
  "''Unknown tool: '' @ tool \<noteq> no_tab_data"
proof -
  show "list_tabs age d a \<noteq> no_tab_data"
    by (simp add: list_tabs_def Let_def no_tab_data_def)
  show "group_tabs_by_domain d \<noteq> no_tab_data"
    by (simp add: group_tabs_by_domain_def Let_def no_tab_data_def)
  show "find_duplicate_tabs d \<noteq> Inr no_tab_data"
    by (simp add: find_duplicate_tabs_def Let_def no_tab_data_def)
  show "fst (find_old_tabs d a w) \<noteq> no_tab_data"
    by (simp add: find_old_tabs_def Let_def split_def no_tab_data_def)
  show "get_tab_stats age d \<noteq> no_tab_data"
    by (simp add: get_tab_stats_def no_tab_data_def)
  show "find_tabs_by_category d \<noteq> no_tab_data"
    by (simp add: find_tabs_by_category_def Let_def split_def no_tab_data_def)
  show "fst (suggest_tab_organization d w) \<noteq> no_tab_data"
    by (simp add: suggest_tab_organization_def Let_def split_def no_tab_data_def)
  show "suggest_focus_tabs d a \<noteq> Inr no_tab_data"
    by (simp add: suggest_focus_tabs_def Let_def no_tab_data_def)
  show "''Unknown tool: '' @ tool \<noteq> no_tab_data"
    by (simp add: no_tab_data_def)
qed


lemma tool_switch_text: "tool_switch tool age d a w \<noteq> Inr (no_tab_data, w')"
proof
  assume r: "tool_switch tool age d a w = Inr (no_tab_data, w')"
  have pair: "r \<noteq> (no_tab_data, w')" if "fst r \<noteq> no_tab_data" for r :: "string \<times> world"
    using that by auto
  note p = planner_texts[THEN pair]
  note old = analysis_texts(4)[THEN pair]
  note sug = analysis_texts(7)[THEN pair]
  note unk = analysis_texts(9)[simplified]
  from r analysis_texts(3)[of d] analysis_texts(8)[of d a] show False
    unfolding tool_switch_def
    by (simp add: p old sug unk analysis_texts(1,2,5,6) split: if_splits sum.splits)
qed

lemma empty_snapshot_no_failure:
  assumes "tabs d = []"
  shows "\<exists>text. find_duplicate_tabs d = Inr text" and "\<exists>text. suggest_focus_tabs d a = Inr text"
  using assms by (simp_all add: find_duplicate_tabs_def suggest_focus_tabs_def Let_def)

lemma tool_switch_empty:
  assumes "tabs d = []"
  shows "\<exists>text w'. tool_switch tool age d a w = Inr (text, w')"
proof -
  from empty_snapshot_no_failure[OF assms] obtain t1 t2
    where "find_duplicate_tabs d = Inr t1" and "suggest_focus_tabs d a = Inr t2"
    by blast
  then show ?thesis
    unfolding tool_switch_def by (simp add: prod_eq_iff)
qed

text \<open>
  Claim C7.  When \<open>tabs-data.json\<close> does not exist (no sync has been performed), every
  tool call, whatever the tool name and the arguments, returns the advisory
  \<open>no_tab_data\<close> and leaves the world as it is; it does not fail.  When a snapshot
  exists, no tool call returns this advisory; in particular with a snapshot whose tab list
  is empty every tool call returns a text, and the text is a different one.
\<close>

theorem no_snapshot_advisory:
  "(tabs_file w = None \<longrightarrow> call_tool tool a w = Inr (no_tab_data, w))
   \<and> (\<forall>d. tabs_file w = Some d \<longrightarrow> (\<forall>w'. call_tool tool a w \<noteq> Inr (no_tab_data, w')))
   \<and> (\<forall>d. tabs_file w = Some d \<and> tabs d = []
         \<longrightarrow> (\<exists>text w'. call_tool tool a w = Inr (text, w') \<and> text \<noteq> no_tab_data))"
proof (intro conjI allI impI)
  assume "tabs_file w = None"
  then show "call_tool tool a w = Inr (no_tab_data, w)"
    by (simp add: call_tool_def loadTabs_def)
next
  fix d w'
  assume "tabs_file w = Some d"
  then have "call_tool tool a w
      = tool_switch tool (fst (formatAge (timestamp d) w)) d a (snd (formatAge (timestamp d) w))"
    by (simp add: call_tool_def loadTabs_def split_def Let_def)
  then show "call_tool tool a w \<noteq> Inr (no_tab_data, w')"
    by (simp add: tool_switch_text)
next
  fix d
  assume "tabs_file w = Some d \<and> tabs d = []"
  then have c: "call_tool tool a w
      = tool_switch tool (fst (formatAge (timestamp d) w)) d a (snd (formatAge (timestamp d) w))"
    and e: "tabs d = []"
    by (simp_all add: call_tool_def loadTabs_def split_def Let_def)
  from tool_switch_empty[OF e] obtain msg w'
    where r: "tool_switch tool (fst (formatAge (timestamp d) w)) d a
        (snd (formatAge (timestamp d) w)) = Inr (msg, w')"
    by blast
  with tool_switch_text have "msg \<noteq> no_tab_data"
    by metis
  with r c show "\<exists>text w'. call_tool tool a w = Inr (text, w') \<and> text \<noteq> no_tab_data"
    by simp
qed

text \<open>The theorem without a snapshot and with a snapshot that has no tabs.\<close>

theorem no_snapshot_advisory_witness:
  "tabs_file (world_at None) = None
   \<and> call_tool ''list_tabs'' no_args (world_at None) = Inr (no_tab_data, world_at None)
   \<and> tabs_file (world_synced []) = Some (snapshot_of [])
   \<and> tabs (snapshot_of []) = []
   \<and> (\<forall>w'. call_tool ''list_tabs'' no_args (world_synced []) \<noteq> Inr (no_tab_data, w'))
   \<and> (\<exists>text w'. call_tool ''list_tabs'' no_args (world_synced []) = Inr (text, w')
                   \<and> text \<noteq> no_tab_data)"
proof -
  have n: "tabs_file (world_at None) = None"
    by (simp add: world_at_def)
  have s: "tabs_file (world_synced []) = Some (snapshot_of [])"
    by (simp add: world_synced_def world_at_def)
  have e: "tabs (snapshot_of []) = []"
    by (simp add: snapshot_of_def)
  note T1 = no_snapshot_advisory[of "world_at None" "''list_tabs''" no_args]
  note T2 = no_snapshot_advisory[of "world_synced []" "''list_tabs''" no_args]
  from T1 n have a: "call_tool ''list_tabs'' no_args (world_at None)
      = Inr (no_tab_data, world_at None)"
    by blast
  from T2 s have b: "\<forall>w'. call_tool ''list_tabs'' no_args (world_synced []) \<noteq> Inr (no_tab_data, w')"
    by blast
  from T2 s e have c: "\<exists>text w'. call_tool ''list_tabs'' no_args (world_synced [])
      = Inr (text, w') \<and> text \<noteq> no_tab_data"
    by blast
  from n a s e b c show ?thesis
    by (intro conjI)
qed

end
